theory Spec2Isabelle
  imports Complex_Main "HOL-Library.Log_Nat"
begin

section \<open>honeylager: a lager sink that forwards log records to Honeycomb\<close>

text \<open>
  The development embeds \<^verbatim>\<open>honeylager.go\<close> (the sink \<^verbatim>\<open>Sink.Log\<close>, the timestamp
  parser \<^verbatim>\<open>parseLagerTimestamp\<close>, \<^verbatim>\<open>logLevelToString\<close> and the response loop
  \<^verbatim>\<open>ReadResponses\<close>) and the second copy of the package kept beside it, whose \<^verbatim>\<open>Log\<close>
  differs. The libraries the package calls (lager, libhoney, strconv, math/rand, runtime,
  time) are not part of the repository: what the package reads from them at run time is
  gathered in the record \<open>runtime_env\<close>, and their documented behaviour is written out
  where the package depends on it.
\<close>

subsection \<open>Values\<close>

text \<open>The two sentinel errors of strconv and the \<^verbatim>\<open>*strconv.NumError\<close> wrapping them.\<close>

datatype conv_err = ErrSyntax | ErrRange

datatype num_error = NumError (Func: string) (Num: string) (Err: conv_err)

text \<open>Go values of type \<^verbatim>\<open>interface{}\<close>, as far as the package stores them.\<close>

datatype val =
    VNil
  | VBool bool
  | VInt int
  | VStr string
  | VErr num_error
  | VList "val list"

text \<open>
  \<^verbatim>\<open>Event.Metadata\<close> and \<^verbatim>\<open>Response.Metadata\<close> have type \<^verbatim>\<open>interface{}\<close>: the nil
  interface, a \<^verbatim>\<open>map[string]interface{}\<close>, or a value of any other dynamic type.
\<close>

datatype metadata = MetaNil | MetaMap "string \<rightharpoonup> val" | MetaOther val

subsection \<open>float64, as far as the timestamp parser needs it\<close>

text \<open>
  A float64 is a finite binary64 number (kept as the rational it denotes), an infinity or a
  NaN. The two zeros are one value here: the package only subtracts, multiplies and
  converts to int64, where they agree.
\<close>

datatype float64 = Fin rat | PosInf | NegInf | NaN

text \<open>\<open>ilog2 a\<close> is the exponent \<open>e\<close> with \<open>2^e \<le> a < 2^(e+1)\<close>, for \<open>a > 0\<close>.\<close>

definition ilog2 :: "rat \<Rightarrow> int" where
  "ilog2 a =
     (let (p, d) = quotient_of a; e0 = bitlen p - bitlen d
      in if 2 powi e0 \<le> a then e0 else e0 - 1)"

text \<open>Rounding a non-negative rational to the nearest integer, ties to even.\<close>

definition round_half_even :: "rat \<Rightarrow> int" where
  "round_half_even t =
     (let f = \<lfloor>t\<rfloor>; r = t - of_int f
      in if r < 1 / 2 then f else if 1 / 2 < r then f + 1 else if even f then f else f + 1)"

text \<open>The exponent of the unit in the last place of the binade of \<open>a\<close> (53-bit significand,
  least exponent \<open>-1074\<close>).\<close>

definition ulp_exp :: "rat \<Rightarrow> int" where
  "ulp_exp a = max (ilog2 a - 52) (- 1074)"

text \<open>
  IEEE 754 rounding to the nearest binary64, ties to even: the significand \<open>m\<close> is the
  rounded multiple of the unit in the last place \<open>2^q\<close>. The largest finite value is
  \<open>(2^53 - 1) * 2^971\<close>; a result beyond it is an infinity.
\<close>

definition fl :: "rat \<Rightarrow> float64" where
  "fl x =
     (if x = 0 then Fin 0
      else let a = \<bar>x\<bar>; q = ulp_exp a; m = round_half_even (a / 2 powi q)
           in if 971 < q \<or> (q = 971 \<and> 2 ^ 53 \<le> m) then (if 0 < x then PosInf else NegInf)
              else Fin (sgn x * (of_int m * 2 powi q)))"

text \<open>The finite float64 values are the fixed points of the rounding.\<close>

definition is_float64 :: "rat \<Rightarrow> bool" where
  "is_float64 x = (fl x = Fin x)"

text \<open>Go's \<^verbatim>\<open>x - y\<close> and \<^verbatim>\<open>x * y\<close> on float64.\<close>

fun f64_sub :: "float64 \<Rightarrow> float64 \<Rightarrow> float64" where
  "f64_sub (Fin a) (Fin b) = fl (a - b)"
| "f64_sub NaN _ = NaN"
| "f64_sub _ NaN = NaN"
| "f64_sub PosInf PosInf = NaN"
| "f64_sub NegInf NegInf = NaN"
| "f64_sub PosInf _ = PosInf"
| "f64_sub NegInf _ = NegInf"
| "f64_sub (Fin a) PosInf = NegInf"
| "f64_sub (Fin a) NegInf = PosInf"

fun f64_neg :: "float64 \<Rightarrow> float64" where
  "f64_neg (Fin a) = Fin (- a)"
| "f64_neg PosInf = NegInf"
| "f64_neg NegInf = PosInf"
| "f64_neg NaN = NaN"

fun f64_mul :: "float64 \<Rightarrow> float64 \<Rightarrow> float64" where
  "f64_mul (Fin a) (Fin b) = fl (a * b)"
| "f64_mul NaN _ = NaN"
| "f64_mul _ NaN = NaN"
| "f64_mul (Fin a) y = (if a = 0 then NaN else if 0 < a then y else f64_neg y)"
| "f64_mul x (Fin b) = (if b = 0 then NaN else if 0 < b then x else f64_neg x)"
| "f64_mul x y = (if x = y then PosInf else NegInf)"

subsection \<open>int64 and the conversions between int64 and float64\<close>

text \<open>An int64 is an \<open>int\<close> in \<open>[-2^63, 2^63)\<close>; \<open>i64\<close> is the wrap-around of Go's
  int64 arithmetic.\<close>

definition i64 :: "int \<Rightarrow> int" where
  "i64 x = signed_take_bit 63 x"

text \<open>Go's integer division (here by a non-zero constant only) and truncation of a
  fraction go towards zero.\<close>

definition tdiv :: "int \<Rightarrow> int \<Rightarrow> int" where
  "tdiv a b = (if (a < 0) = (b < 0) then \<bar>a\<bar> div \<bar>b\<bar> else - (\<bar>a\<bar> div \<bar>b\<bar>))"

definition trunc :: "rat \<Rightarrow> int" where
  "trunc q = (if 0 \<le> q then \<lfloor>q\<rfloor> else \<lceil>q\<rceil>)"

text \<open>\<^verbatim>\<open>float64(i)\<close> for an int64 \<open>i\<close>.\<close>

definition float64_of_int64 :: "int \<Rightarrow> float64" where
  "float64_of_int64 i = fl (of_int i)"

text \<open>
  \<^verbatim>\<open>int64(f)\<close> for a float64 \<open>f\<close>: the fraction is discarded. When the result does not
  fit (also for infinities and NaN) the Go specification leaves the value to the
  implementation; \<open>unrep\<close> is what the implementation at hand yields.
\<close>

definition int64_of_float64 :: "(float64 \<Rightarrow> int) \<Rightarrow> float64 \<Rightarrow> int" where
  "int64_of_float64 unrep f =
     (case f of
        Fin q \<Rightarrow> if - (2 ^ 63) \<le> trunc q \<and> trunc q < 2 ^ 63 then trunc q else i64 (unrep f)
      | _ \<Rightarrow> i64 (unrep f))"

subsection \<open>time.Time and time.Unix\<close>

text \<open>A \<^verbatim>\<open>time.Time\<close>, by what \<^verbatim>\<open>t.Unix()\<close> and \<^verbatim>\<open>t.Nanosecond()\<close> return.\<close>

record gtime =
  unix_sec :: int
  nanosecond :: int

text \<open>
  \<^verbatim>\<open>time.Unix(sec, nsec)\<close>, from the standard library: a \<open>nsec\<close> outside
  \<open>[0, 999999999]\<close> is carried into the seconds.
\<close>

definition Unix :: "int \<Rightarrow> int \<Rightarrow> gtime" where
  "Unix sec nsec =
     (if nsec < 0 \<or> 1000000000 \<le> nsec then
        let n = tdiv nsec 1000000000;
            sec1 = i64 (sec + n);
            nsec1 = i64 (nsec - i64 (n * 1000000000))
        in if nsec1 < 0 then \<lparr>unix_sec = i64 (sec1 - 1), nanosecond = i64 (nsec1 + 1000000000)\<rparr>
           else \<lparr>unix_sec = sec1, nanosecond = nsec1\<rparr>
      else \<lparr>unix_sec = sec, nanosecond = nsec\<rparr>)"

subsection \<open>Events, the builder and the sink\<close>

record event =
  ev_WriteKey :: string
  ev_Dataset :: string
  ev_fields :: "string \<rightharpoonup> val"
  ev_Timestamp :: gtime
  ev_Metadata :: metadata

text \<open>
  What a call reads from its surroundings:
  \<^item> \<open>Caller2\<close>: the name \<^verbatim>\<open>runtime.FuncForPC(pc).Name()\<close> of the function two frames
    up, when \<^verbatim>\<open>runtime.Caller(2)\<close> reports ok;
  \<^item> \<open>rand_draw\<close>: the next draw of the shared source of math/rand;
  \<^item> \<open>NumGoroutine\<close>, \<open>MemStats_Alloc\<close>: the runtime's counters (an int and a uint64);
  \<^item> \<open>Now\<close>: the clock, read when an event is made;
  \<^item> \<open>ParseFloat\<close>: \<^verbatim>\<open>strconv.ParseFloat(s, 9)\<close>; a bit size other than 32 means float64,
    and on failure the error is \<open>ErrSyntax\<close> or \<open>ErrRange\<close>;
  \<^item> \<open>Send_error\<close>: the error \<^verbatim>\<open>ev.Send()\<close> returns for an event, if any;
  \<^item> \<open>conv_unrep\<close>: what the implementation yields for an int64 conversion of a float64
    that does not fit.
\<close>

record runtime_env =
  Caller2 :: "string option"
  rand_draw :: nat
  NumGoroutine :: int
  MemStats_Alloc :: nat
  Now :: gtime
  ParseFloat :: "string \<Rightarrow> conv_err + float64"
  Send_error :: "event \<Rightarrow> string option"
  conv_unrep :: "float64 \<Rightarrow> int"

record builder =
  WriteKey :: string
  Dataset :: string
  dynFields :: "(string \<times> (runtime_env \<Rightarrow> val)) list"

record sink =
  minLogLevel :: int
  sink_builder :: builder

text \<open>\<^verbatim>\<open>lager.LogFormat\<close>; \<^verbatim>\<open>lager.LogLevel\<close> is an int with DEBUG, INFO, ERROR, FATAL
  numbered from 0.\<close>

record log_format =
  Timestamp :: string
  Source :: string
  Message :: string
  LogLevel :: int
  Data :: "string \<rightharpoonup> val"

definition DEBUG :: int where "DEBUG = 0"
definition INFO :: int where "INFO = 1"
definition ERROR :: int where "ERROR = 2"
definition FATAL :: int where "FATAL = 3"

definition metadataKeyID :: string where
  "metadataKeyID = ''id''"

definition MaxInt32 :: int where
  "MaxInt32 = 2147483647"

text \<open>\<^verbatim>\<open>rand.Intn(n)\<close> for \<open>n > 0\<close>: a number of \<open>[0, n)\<close> taken from the source's draw,
  the draw itself when it is in that range.\<close>

definition Intn :: "int \<Rightarrow> nat \<Rightarrow> int" where
  "Intn n draw = int draw mod n"

text \<open>What the package prints: \<^verbatim>\<open>printError\<close> lines and the success line.\<close>

datatype report =
    BadStatusCode int "string option" string
  | MetadataWasNil
  | MetadataNotMap metadata
  | SendFailed string
  | SuccessfullySent val int

text \<open>The world outside a call: the events handed to \<^verbatim>\<open>Send\<close> (whether or not
  \<^verbatim>\<open>Send\<close> then reports an error) and the lines printed, both in order.\<close>

record world =
  sends :: "event list"
  printed :: "report list"

definition NewSink :: "string \<Rightarrow> string \<Rightarrow> int \<Rightarrow> sink" where
  "NewSink honeycombWriteKey honeycombDataset minLevel =
     \<lparr>minLogLevel = minLevel,
      sink_builder =
        \<lparr>WriteKey = honeycombWriteKey,
         Dataset = honeycombDataset,
         dynFields =
           [(''num_goroutines'', \<lambda>env. VInt (NumGoroutine env)),
            (''memory_allocation'', \<lambda>env. VInt (int (MemStats_Alloc env)))]\<rparr>\<rparr>"

definition AddField :: "event \<Rightarrow> string \<Rightarrow> val \<Rightarrow> event" where
  "AddField ev k v = ev\<lparr>ev_fields := (ev_fields ev)(k \<mapsto> v)\<rparr>"

text \<open>\<^verbatim>\<open>ev.Add(m)\<close> for a map \<open>m\<close>: one \<^verbatim>\<open>AddField\<close> per entry.\<close>

definition Add :: "event \<Rightarrow> (string \<rightharpoonup> val) \<Rightarrow> event" where
  "Add ev m = ev\<lparr>ev_fields := ev_fields ev ++ m\<rparr>"

text \<open>\<^verbatim>\<open>builder.NewEvent()\<close>: a fresh event stamped with the current time, holding the
  builder's dynamic fields evaluated now.\<close>

definition NewEvent :: "runtime_env \<Rightarrow> builder \<Rightarrow> event" where
  "NewEvent env b =
     fold (\<lambda>(k, f) ev. AddField ev k (f env)) (dynFields b)
       \<lparr>ev_WriteKey = WriteKey b, ev_Dataset = Dataset b, ev_fields = Map.empty,
        ev_Timestamp = Now env, ev_Metadata = MetaNil\<rparr>"

text \<open>\<^verbatim>\<open>ev.Send()\<close> followed by the caller's \<^verbatim>\<open>printError\<close> on failure.\<close>

definition Send :: "runtime_env \<Rightarrow> event \<Rightarrow> world \<Rightarrow> world" where
  "Send env ev w =
     (case Send_error env ev of
        None \<Rightarrow> w\<lparr>sends := sends w @ [ev]\<rparr>
      | Some e \<Rightarrow> w\<lparr>sends := sends w @ [ev], printed := printed w @ [SendFailed e]\<rparr>)"

subsection \<open>The package's functions\<close>

definition parseLagerTimestamp :: "runtime_env \<Rightarrow> string \<Rightarrow> num_error + gtime" where
  "parseLagerTimestamp env ts =
     (case ParseFloat env ts of
        Inl e \<Rightarrow> Inl (NumError ''ParseFloat'' ts e)
      | Inr timeFloat \<Rightarrow>
          let seconds = int64_of_float64 (conv_unrep env) timeFloat;
              nanos = int64_of_float64 (conv_unrep env)
                        (f64_mul (f64_sub timeFloat (float64_of_int64 seconds)) (Fin 1000000000))
          in Inr (Unix seconds nanos))"

definition logLevelToString :: "int \<Rightarrow> string" where
  "logLevelToString logLevel =
     (if logLevel = DEBUG then ''DEBUG''
      else if logLevel = INFO then ''INFO''
      else if logLevel = ERROR then ''ERROR''
      else if logLevel = FATAL then ''FATAL''
      else ''UNKNOWN'')"

text \<open>The part of \<^verbatim>\<open>Log\<close> both copies share after the data has been added.\<close>

definition stamp_and_send :: "runtime_env \<Rightarrow> string \<Rightarrow> event \<Rightarrow> world \<Rightarrow> world" where
  "stamp_and_send env ts ev w =
     Send env
       (case parseLagerTimestamp env ts of
          Inl err \<Rightarrow> AddField ev ''lager_timestamp_parse_error'' (VErr err)
        | Inr t \<Rightarrow> ev\<lparr>ev_Timestamp := t\<rparr>)
       w"

definition add_lager_fields :: "runtime_env \<Rightarrow> log_format \<Rightarrow> event \<Rightarrow> event" where
  "add_lager_fields env logFormat ev =
     (let ev1 = ev\<lparr>ev_Metadata := MetaMap [metadataKeyID \<mapsto> VInt (Intn MaxInt32 (rand_draw env))]\<rparr>;
          ev2 = AddField ev1 ''lager_source'' (VStr (Source logFormat));
          ev3 = AddField ev2 ''lager_message'' (VStr (Message logFormat));
          ev4 = AddField ev3 ''lager_log_level_iota'' (VInt (LogLevel logFormat))
      in AddField ev4 ''lager_log_level'' (VStr (logLevelToString (LogLevel logFormat))))"

text \<open>
  \<^verbatim>\<open>Sink.Log\<close> of \<^verbatim>\<open>honeylager.go\<close>. The record's \<^verbatim>\<open>Data\<close> is a Go map, shared with
  the caller: the function returns the map as the call leaves it, and the world.
\<close>

definition Log :: "runtime_env \<Rightarrow> sink \<Rightarrow> log_format \<Rightarrow> world \<Rightarrow> (string \<rightharpoonup> val) \<times> world" where
  "Log env snk logFormat w =
     (if LogLevel logFormat < minLogLevel snk then (Data logFormat, w)
      else
        let ev = NewEvent env (sink_builder snk);
            ev = (case Caller2 env of
                    Some funcName \<Rightarrow> AddField ev ''function'' (VStr funcName)
                  | None \<Rightarrow> ev);
            ev = add_lager_fields env logFormat ev;
            (ev, d) = (case Data logFormat ''session'' of
                         Some session \<Rightarrow>
                           (AddField ev ''lager_session'' session,
                            (Data logFormat)(''session'' := None))
                       | None \<Rightarrow> (ev, Data logFormat));
            ev = Add ev d
        in (d, stamp_and_send env (Timestamp logFormat) ev w))"

text \<open>\<^verbatim>\<open>Sink.Log\<close> of the second copy of the package: no call-site field and no
  renaming of the session.\<close>

definition Log_part000 ::
  "runtime_env \<Rightarrow> sink \<Rightarrow> log_format \<Rightarrow> world \<Rightarrow> (string \<rightharpoonup> val) \<times> world" where
  "Log_part000 env snk logFormat w =
     (if LogLevel logFormat < minLogLevel snk then (Data logFormat, w)
      else
        let ev = NewEvent env (sink_builder snk);
            ev = add_lager_fields env logFormat ev;
            ev = Add ev (Data logFormat)
        in (Data logFormat, stamp_and_send env (Timestamp logFormat) ev w))"

subsection \<open>The response loop\<close>

text \<open>\<^verbatim>\<open>libhoney.Response\<close>; the duration is in nanoseconds.\<close>

record response =
  StatusCode :: int
  Body :: string
  Duration :: int
  Resp_Metadata :: metadata
  Resp_Err :: "string option"

text \<open>The body of the loop of \<^verbatim>\<open>ReadResponses\<close>: what one response makes it print.\<close>

definition handle_response :: "response \<Rightarrow> report" where
  "handle_response r =
     (if StatusCode r < 200 \<or> 300 \<le> StatusCode r then
        BadStatusCode (StatusCode r) (Resp_Err r) (Body r)
      else case Resp_Metadata r of
        MetaNil \<Rightarrow> MetadataWasNil
      | MetaOther v \<Rightarrow> MetadataNotMap (MetaOther v)
      | MetaMap metadataMap \<Rightarrow>
          SuccessfullySent
            (case metadataMap metadataKeyID of None \<Rightarrow> VNil | Some v \<Rightarrow> v)
            (Duration r))"

text \<open>
  What the channel \<^verbatim>\<open>libhoney.Responses()\<close> does next for its reader: it delivers a
  response, or it is closed. A list of such events is a history of the channel; at its end
  the channel is open and empty, and the reader waits.
\<close>

datatype chan_event = Recv response | Closed

datatype loop_state = Returned | Waiting

text \<open>\<^verbatim>\<open>ReadResponses\<close>: the \<^verbatim>\<open>for r := range\<close> loop over the channel.\<close>

fun ReadResponses :: "chan_event list \<Rightarrow> world \<Rightarrow> loop_state \<times> world" where
  "ReadResponses [] w = (Waiting, w)"
| "ReadResponses (Closed # es) w = (Returned, w)"
| "ReadResponses (Recv r # es) w =
     ReadResponses es (w\<lparr>printed := printed w @ [handle_response r]\<rparr>)"

text \<open>The responses a history delivers before the channel is closed.\<close>

fun delivered :: "chan_event list \<Rightarrow> response list" where
  "delivered [] = []"
| "delivered (Closed # es) = []"
| "delivered (Recv r # es) = r # delivered es"

subsection \<open>A concrete environment for the examples\<close>

text \<open>
  \<^verbatim>\<open>strconv.ParseFloat\<close> on the plain decimal strings \<^verbatim>\<open>[+-]digits[.digits]\<close> (at
  least one digit): the nearest float64, or \<open>ErrRange\<close> when that overflows. The other
  spellings strconv reads (exponents, hexadecimal, \<^verbatim>\<open>Inf\<close>, \<^verbatim>\<open>NaN\<close>) are outside
  this fragment, which is used for the closed examples only; the theorems hold for every
  parser.
\<close>

definition digit_of :: "char \<Rightarrow> int option" where
  "digit_of c = (let n = (of_char c :: int) in if 48 \<le> n \<and> n \<le> 57 then Some (n - 48) else None)"

fun read_digits :: "string \<Rightarrow> int \<Rightarrow> int option" where
  "read_digits [] acc = Some acc"
| "read_digits (c # cs) acc =
     (case digit_of c of None \<Rightarrow> None | Some d \<Rightarrow> read_digits cs (10 * acc + d))"

definition ParseFloat_plain :: "string \<Rightarrow> conv_err + float64" where
  "ParseFloat_plain s =
     (let (neg, body) =
            (case s of
               [] \<Rightarrow> (False, s)
             | c # cs \<Rightarrow>
                 if c = CHR ''-'' then (True, cs)
                 else if c = CHR ''+'' then (False, cs) else (False, s));
          ip = takeWhile (\<lambda>c. c \<noteq> CHR ''.'') body;
          fp = drop 1 (dropWhile (\<lambda>c. c \<noteq> CHR ''.'') body)
      in if ip @ fp = [] then Inl ErrSyntax
         else case read_digits (ip @ fp) 0 of
           None \<Rightarrow> Inl ErrSyntax
         | Some n \<Rightarrow>
             (case fl ((if neg then - 1 else 1) * of_int n / 10 ^ length fp) of
                Fin q \<Rightarrow> Inr (Fin q)
              | _ \<Rightarrow> Inl ErrRange))"

definition example_env :: runtime_env where
  "example_env =
     \<lparr>Caller2 = Some ''main.main'',
      rand_draw = 424242,
      NumGoroutine = 4,
      MemStats_Alloc = 4096,
      Now = \<lparr>unix_sec = 1600000000, nanosecond = 0\<rparr>,
      ParseFloat = ParseFloat_plain,
      Send_error = (\<lambda>_. None),
      conv_unrep = (\<lambda>_. - 9223372036854775808)\<rparr>"

definition world0 :: world where
  "world0 = \<lparr>sends = [], printed = []\<rparr>"

definition example_record :: log_format where
  "example_record =
     \<lparr>Timestamp = ''1504804895.094333887'',
      Source = ''my-component'',
      Message = ''my-component.some-action'',
      LogLevel = INFO,
      Data = [''session'' \<mapsto> VStr ''7'', ''method'' \<mapsto> VStr ''get'']\<rparr>"

definition example_response :: response where
  "example_response =
     \<lparr>StatusCode = 202, Body = [], Duration = 1500000,
      Resp_Metadata = MetaMap [''id'' \<mapsto> VInt 424242], Resp_Err = None\<rparr>"

section \<open>What a call of Log sends\<close>

subsection \<open>The event built for a record that passes the filter\<close>

lemma NewEvent_NewSink:
  "NewEvent env (sink_builder (NewSink wk ds l)) =
     \<lparr>ev_WriteKey = wk, ev_Dataset = ds,
      ev_fields = [''num_goroutines'' \<mapsto> VInt (NumGoroutine env),
                   ''memory_allocation'' \<mapsto> VInt (int (MemStats_Alloc env))],
      ev_Timestamp = Now env, ev_Metadata = MetaNil\<rparr>"
  by (simp add: NewEvent_def NewSink_def AddField_def)

lemma sends_Send [simp]: "sends (Send env ev w) = sends w @ [ev]"
  by (simp add: Send_def split: option.splits)

lemma sends_stamp_and_send:
  "sends (stamp_and_send env ts ev w) =
     sends w @ [case parseLagerTimestamp env ts of
                  Inl err \<Rightarrow> AddField ev ''lager_timestamp_parse_error'' (VErr err)
                | Inr t \<Rightarrow> ev\<lparr>ev_Timestamp := t\<rparr>]"
  by (simp add: stamp_and_send_def)

lemma Log_passing:
  "minLogLevel snk \<le> LogLevel lf \<Longrightarrow>
   Log env snk lf w =
     ((Data lf)(''session'' := None),
      stamp_and_send env (Timestamp lf)
        (Add (case Data lf ''session'' of
                None \<Rightarrow> add_lager_fields env lf
                  (case Caller2 env of None \<Rightarrow> NewEvent env (sink_builder snk)
                   | Some f \<Rightarrow> AddField (NewEvent env (sink_builder snk)) ''function'' (VStr f))
              | Some s \<Rightarrow> AddField (add_lager_fields env lf
                  (case Caller2 env of None \<Rightarrow> NewEvent env (sink_builder snk)
                   | Some f \<Rightarrow> AddField (NewEvent env (sink_builder snk)) ''function'' (VStr f)))
                  ''lager_session'' s)
           ((Data lf)(''session'' := None))) w)"
  by (auto simp: Log_def Let_def fun_upd_idem split: option.splits)

lemma NewEvent_Timestamp: "ev_Timestamp (NewEvent env b) = Now env"
proof -
  have "ev_Timestamp (fold (\<lambda>(k, f) ev. AddField ev k (f env)) xs e) = ev_Timestamp e" for xs e
    by (induction xs arbitrary: e) (auto simp: AddField_def)
  then show ?thesis by (simp add: NewEvent_def)
qed

lemma add_lager_fields_simps:
  "ev_fields (add_lager_fields env lf ev) =
     ev_fields ev ++
       [''lager_source'' \<mapsto> VStr (Source lf),
        ''lager_message'' \<mapsto> VStr (Message lf),
        ''lager_log_level_iota'' \<mapsto> VInt (LogLevel lf),
        ''lager_log_level'' \<mapsto> VStr (logLevelToString (LogLevel lf))]"
  "ev_Metadata (add_lager_fields env lf ev) =
     MetaMap [''id'' \<mapsto> VInt (Intn MaxInt32 (rand_draw env))]"
  "ev_Timestamp (add_lager_fields env lf ev) = ev_Timestamp ev"
  "ev_WriteKey (add_lager_fields env lf ev) = ev_WriteKey ev"
  "ev_Dataset (add_lager_fields env lf ev) = ev_Dataset ev"
  by (simp_all add: add_lager_fields_def AddField_def Let_def metadataKeyID_def)

text \<open>
  The fields of the event are the result of successive writes, a later write replacing an
  earlier one under the same key: the builder's dynamic fields, the call site, the four
  lager fields, the renamed session, the remaining data, the parse error.
\<close>

lemma Log_event:
  assumes "minLogLevel snk \<le> LogLevel lf"
  shows "\<exists>ev. snd (Log env snk lf w) = Send env ev w \<and>
     ev_fields ev =
       ev_fields (NewEvent env (sink_builder snk))
         ++ (case Caller2 env of None \<Rightarrow> Map.empty | Some f \<Rightarrow> [''function'' \<mapsto> VStr f])
         ++ [''lager_source'' \<mapsto> VStr (Source lf),
             ''lager_message'' \<mapsto> VStr (Message lf),
             ''lager_log_level_iota'' \<mapsto> VInt (LogLevel lf),
             ''lager_log_level'' \<mapsto> VStr (logLevelToString (LogLevel lf))]
         ++ (case Data lf ''session'' of None \<Rightarrow> Map.empty | Some s \<Rightarrow> [''lager_session'' \<mapsto> s])
         ++ (Data lf)(''session'' := None)
         ++ (case parseLagerTimestamp env (Timestamp lf) of
               Inl err \<Rightarrow> [''lager_timestamp_parse_error'' \<mapsto> VErr err]
             | Inr t \<Rightarrow> Map.empty) \<and>
     ev_Metadata ev = MetaMap [''id'' \<mapsto> VInt (Intn MaxInt32 (rand_draw env))] \<and>
     ev_Timestamp ev =
       (case parseLagerTimestamp env (Timestamp lf) of Inl err \<Rightarrow> Now env | Inr t \<Rightarrow> t)"
  unfolding Log_passing [OF assms] stamp_and_send_def snd_conv
  by (rule exI, rule conjI, rule refl)
    (simp add: add_lager_fields_simps AddField_def Add_def NewEvent_Timestamp
       split: option.splits sum.splits)

lemma Log_part000_event:
  assumes "minLogLevel snk \<le> LogLevel lf"
  shows "\<exists>ev. snd (Log_part000 env snk lf w) = Send env ev w \<and>
     ev_fields ev =
       ev_fields (NewEvent env (sink_builder snk))
         ++ [''lager_source'' \<mapsto> VStr (Source lf),
             ''lager_message'' \<mapsto> VStr (Message lf),
             ''lager_log_level_iota'' \<mapsto> VInt (LogLevel lf),
             ''lager_log_level'' \<mapsto> VStr (logLevelToString (LogLevel lf))]
         ++ Data lf
         ++ (case parseLagerTimestamp env (Timestamp lf) of
               Inl err \<Rightarrow> [''lager_timestamp_parse_error'' \<mapsto> VErr err]
             | Inr t \<Rightarrow> Map.empty) \<and>
     ev_Metadata ev = MetaMap [''id'' \<mapsto> VInt (Intn MaxInt32 (rand_draw env))] \<and>
     ev_Timestamp ev =
       (case parseLagerTimestamp env (Timestamp lf) of Inl err \<Rightarrow> Now env | Inr t \<Rightarrow> t)"
  using assms unfolding Log_part000_def stamp_and_send_def
  by (simp add: Let_def)
    (rule exI, rule conjI, rule refl,
      simp add: add_lager_fields_simps AddField_def Add_def NewEvent_Timestamp
       split: option.splits sum.splits)


lemma Log_data_after:
  "fst (Log env snk lf w) =
     (if LogLevel lf < minLogLevel snk then Data lf else (Data lf)(''session'' := None))"
  by (auto simp: Log_def Let_def fun_upd_idem split: option.splits)

subsection \<open>The examples, evaluated\<close>

lemma example_passes: "minLogLevel (NewSink ''key'' ''dataset'' DEBUG) \<le> LogLevel example_record"
  by (simp add: NewSink_def example_record_def DEBUG_def INFO_def)

lemma example_record_simps:
  "Timestamp example_record = ''1504804895.094333887''"
  "Source example_record = ''my-component''"
  "Message example_record = ''my-component.some-action''"
  "LogLevel example_record = INFO"
  "Data example_record = [''session'' \<mapsto> VStr ''7'', ''method'' \<mapsto> VStr ''get'']"
  by (simp_all add: example_record_def)

lemma example_env_simps:
  "Caller2 example_env = Some ''main.main''"
  "rand_draw example_env = 424242"
  "NumGoroutine example_env = 4"
  "MemStats_Alloc example_env = 4096"
  "Now example_env = \<lparr>unix_sec = 1600000000, nanosecond = 0\<rparr>"
  "ParseFloat example_env = ParseFloat_plain"
  "Send_error example_env = (\<lambda>_. None)"
  "conv_unrep example_env = (\<lambda>_. - 9223372036854775808)"
  by (simp_all add: example_env_def)

lemma ParseFloat_example:
  "ParseFloat_plain ''1504804895.094333887'' = Inr (Fin (6311609190713745 / 4194304))"
  by code_simp

lemma ParseFloat_neg: "ParseFloat_plain ''-1.5'' = Inr (Fin (- (3 / 2)))"
  by code_simp

lemma ParseFloat_bad: "ParseFloat_plain ''not-a-time'' = Inl ErrSyntax"
  by code_simp

lemma parse_example_timestamp:
  "parseLagerTimestamp example_env ''1504804895.094333887''
     = Inr \<lparr>unix_sec = 1504804895, nanosecond = 94333887\<rparr>"
proof -
  have s: "int64_of_float64 (\<lambda>_. - 9223372036854775808) (Fin (6311609190713745 / 4194304)) = 1504804895"
    by code_simp
  have n: "int64_of_float64 (\<lambda>_. - 9223372036854775808)
      (f64_mul (f64_sub (Fin (6311609190713745 / 4194304)) (float64_of_int64 1504804895)) (Fin 1000000000))
      = 94333887"
    by code_simp
  show ?thesis
    by (simp add: parseLagerTimestamp_def example_env_simps ParseFloat_example s n Unix_def Let_def)
qed

lemma parse_neg_timestamp:
  "parseLagerTimestamp example_env ''-1.5'' = Inr \<lparr>unix_sec = - 2, nanosecond = 500000000\<rparr>"
proof -
  have s: "int64_of_float64 (\<lambda>_. - 9223372036854775808) (Fin (- (3 / 2))) = - 1"
    by code_simp
  have n: "int64_of_float64 (\<lambda>_. - 9223372036854775808)
      (f64_mul (f64_sub (Fin (- (3 / 2))) (float64_of_int64 (- 1))) (Fin 1000000000))
      = - 500000000"
    by code_simp
  have u: "Unix (- 1) (- 500000000) = \<lparr>unix_sec = - 2, nanosecond = 500000000\<rparr>"
    by code_simp
  show ?thesis
    by (simp add: parseLagerTimestamp_def example_env_simps ParseFloat_neg s n u Let_def)
qed

lemma parse_bad_timestamp:
  "parseLagerTimestamp example_env ''not-a-time'' = Inl (NumError ''ParseFloat'' ''not-a-time'' ErrSyntax)"
  by (simp add: parseLagerTimestamp_def example_env_simps ParseFloat_bad)

subsection \<open>The response loop, one response after the other\<close>

lemma ReadResponses_printed:
  "printed (snd (ReadResponses es w)) = printed w @ map handle_response (delivered es)"
  by (induction es w rule: ReadResponses.induct) simp_all

lemma ReadResponses_sends: "sends (snd (ReadResponses es w)) = sends w"
  by (induction es w rule: ReadResponses.induct) simp_all

lemma ReadResponses_Returned: "fst (ReadResponses es w) = Returned \<longleftrightarrow> Closed \<in> set es"
  by (induction es w rule: ReadResponses.induct) simp_all

section \<open>Rounding to float64\<close>

subsection \<open>Powers of two and the binary logarithm\<close>

lemma two_powi_le_iff: "(2::rat) powi m \<le> 2 powi n \<longleftrightarrow> m \<le> n"
proof
  assume "(2::rat) powi m \<le> 2 powi n"
  show "m \<le> n"
  proof (rule ccontr)
    assume "\<not> m \<le> n"
    then have "(2::rat) powi n < 2 powi m"
      by (intro power_int_strict_increasing) auto
    with \<open>(2::rat) powi m \<le> 2 powi n\<close> show False by simp
  qed
next
  assume "m \<le> n"
  then show "(2::rat) powi m \<le> 2 powi n"
    by (intro power_int_increasing) auto
qed

lemma two_powi_less_iff: "(2::rat) powi m < 2 powi n \<longleftrightarrow> m < n"
  using two_powi_le_iff [of n m] by (auto simp: not_le [symmetric])

lemma two_powi_pos: "0 < (2::rat) powi n"
  by simp

lemma bitlen_powi:
  assumes "0 < p"
  shows "(2::rat) powi (bitlen p - 1) \<le> of_int p" and "of_int p < (2::rat) powi bitlen p"
proof -
  from bitlen_bounds [OF assms]
  have a: "2 ^ nat (bitlen p - 1) \<le> p" and b: "p < 2 ^ nat (bitlen p)" by auto
  have c: "1 \<le> bitlen p"
    using assms bitlen_eq_zero_iff [of p] bitlen_nonneg [of p] by linarith
  have "(2::rat) powi (bitlen p - 1) = of_int (2 ^ nat (bitlen p - 1))"
    using c by (simp add: power_int_nonneg_exp)
  also have "\<dots> \<le> of_int p"
    using a by (simp only: of_int_le_iff)
  finally show "(2::rat) powi (bitlen p - 1) \<le> of_int p" .
  have "(of_int p :: rat) < of_int (2 ^ nat (bitlen p))"
    using b by (simp only: of_int_less_iff)
  also have "\<dots> = (2::rat) powi bitlen p"
    using c by (simp add: power_int_nonneg_exp)
  finally show "of_int p < (2::rat) powi bitlen p" .
qed

lemma ilog2_bounds:
  assumes "0 < a"
  shows "2 powi (ilog2 a) \<le> a" and "a < 2 powi (ilog2 a + 1)"
proof -
  obtain p d where pd: "quotient_of a = (p, d)"
    by (cases "quotient_of a")
  then have d: "0 < d" and a: "a = of_int p / of_int d"
    by (auto dest: quotient_of_denom_pos quotient_of_div)
  have p: "0 < p"
    using assms d by (simp add: a zero_less_divide_iff)
  let ?e = "bitlen p - bitlen d"
  have dd: "(0::rat) < of_int d" using d by simp
  have "2 powi (?e - 1) * of_int d < (2::rat) powi (?e - 1) * 2 powi bitlen d"
    using bitlen_powi(2) [OF d] by (intro mult_strict_left_mono) auto
  also have "\<dots> = 2 powi (bitlen p - 1)"
    by (simp flip: power_int_add)
  also have "\<dots> \<le> of_int p"
    by (rule bitlen_powi(1) [OF p])
  finally have lo: "2 powi (?e - 1) < a"
    using dd by (simp add: a pos_less_divide_eq)
  have "(of_int p :: rat) < 2 powi bitlen p"
    by (rule bitlen_powi(2) [OF p])
  also have "\<dots> = 2 powi (?e + 1) * 2 powi (bitlen d - 1)"
    by (simp flip: power_int_add)
  also have "\<dots> \<le> 2 powi (?e + 1) * of_int d"
    using bitlen_powi(1) [OF d] by (intro mult_left_mono) auto
  finally have hi: "a < 2 powi (?e + 1)"
    using dd by (simp add: a pos_divide_less_eq)
  have il: "ilog2 a = (if 2 powi ?e \<le> a then ?e else ?e - 1)"
    by (simp add: ilog2_def pd Let_def)
  show "2 powi (ilog2 a) \<le> a"
    using lo by (auto simp: il)
  show "a < 2 powi (ilog2 a + 1)"
    using hi by (auto simp: il not_le)
qed

lemma ilog2_less:
  assumes "0 < a" and "a < 2 powi n"
  shows "ilog2 a < n"
proof -
  have "(2::rat) powi ilog2 a < 2 powi n"
    using ilog2_bounds(1) [OF assms(1)] assms(2) by simp
  then show ?thesis by (simp add: two_powi_less_iff)
qed

subsection \<open>Rounding to the nearest integer\<close>

lemma round_half_even_of_int [simp]: "round_half_even (of_int n) = n"
  by (simp add: round_half_even_def)

lemma round_half_even_error: "\<bar>of_int (round_half_even t) - t\<bar> \<le> 1 / 2"
proof -
  have "of_int \<lfloor>t\<rfloor> \<le> t" "t < of_int \<lfloor>t\<rfloor> + 1"
    by linarith+
  then show ?thesis
    by (auto simp: round_half_even_def Let_def abs_le_iff)
qed

lemma round_half_even_nonneg: "0 \<le> t \<Longrightarrow> 0 \<le> round_half_even t"
  by (auto simp: round_half_even_def Let_def)

lemma round_half_even_le:
  assumes "t \<le> of_int n"
  shows "round_half_even t \<le> n"
proof -
  have f: "\<lfloor>t\<rfloor> \<le> n" using assms by (simp add: floor_le_iff) 
  show ?thesis
  proof (cases "t = of_int \<lfloor>t\<rfloor>")
    case True
    then have "round_half_even t = \<lfloor>t\<rfloor>"
      by (metis round_half_even_of_int)
    with f show ?thesis by simp
  next
    case False
    have "of_int \<lfloor>t\<rfloor> \<le> t" by (rule of_int_floor_le)
    with False have "of_int \<lfloor>t\<rfloor> < t" by (metis le_less)
    with assms have "\<lfloor>t\<rfloor> < n"
      by (metis (no_types) of_int_less_iff order_less_le_trans)
    moreover have "round_half_even t \<le> \<lfloor>t\<rfloor> + 1"
      by (auto simp: round_half_even_def Let_def)
    ultimately show ?thesis by simp
  qed
qed

subsection \<open>Numbers that rounding leaves alone\<close>

text \<open>
  A significand of at most 53 bits with an exponent in range is a float64: rounding
  returns it.
\<close>

lemma fl_pos:
  assumes "0 < x"
  shows "fl x =
     (if 971 < ulp_exp x \<or> (ulp_exp x = 971 \<and> 2 ^ 53 \<le> round_half_even (x / 2 powi ulp_exp x))
      then PosInf
      else Fin (of_int (round_half_even (x / 2 powi ulp_exp x)) * 2 powi ulp_exp x))"
proof -
  have "x \<noteq> 0" "\<bar>x\<bar> = x" "sgn x = 1" "(0 < x) = True"
    using assms by auto
  show ?thesis
    unfolding fl_def Let_def
    by (simp only: \<open>x \<noteq> 0\<close> \<open>\<bar>x\<bar> = x\<close> \<open>sgn x = 1\<close> \<open>(0 < x) = True\<close> if_False if_True mult_1)
qed

lemma fl_exact_lt:
  assumes m: "0 < m" "m < 2 ^ 53" and e: "- 1074 \<le> e" "e \<le> 970"
  shows "fl (of_int m * 2 powi e) = Fin (of_int m * 2 powi e)"
proof -
  let ?x = "of_int m * (2::rat) powi e"
  have x: "0 < ?x" using m by simp
  have "?x < 2 ^ 53 * 2 powi e"
  proof -
    have "(of_int m :: rat) < of_int (2 ^ 53)" using m(2) by (simp only: of_int_less_iff)
    then show ?thesis by (intro mult_strict_right_mono) auto
  qed
  also have "\<dots> = 2 powi (53 + e)"
    by (simp add: power_int_add)
  finally have "ilog2 ?x < 53 + e"
    by (rule ilog2_less [OF x])
  then have q0: "ulp_exp ?x \<le> e"
    using e by (simp add: ulp_exp_def)
  define q where "q = ulp_exp ?x"
  have q: "q \<le> e" using q0 by (simp add: q_def)
  define k where "k = nat (e - q)"
  have p: "(2::rat) powi e = 2 ^ k * 2 powi q"
  proof -
    have "(2::rat) powi e = 2 powi (int k + q)"
      using q by (simp add: k_def)
    also have "\<dots> = 2 powi (int k) * 2 powi q"
      by (rule power_int_add) simp
    finally show ?thesis by simp
  qed
  have "?x / 2 powi q = of_int (m * 2 ^ k)"
    by (simp add: p)
  then have r: "round_half_even (?x / 2 powi q) = m * 2 ^ k"
    by (simp only: round_half_even_of_int)
  have v: "of_int (m * 2 ^ k) * 2 powi q = ?x"
    by (simp add: p)
  have n: "\<not> (971 < q \<or> (q = 971 \<and> 2 ^ 53 \<le> round_half_even (?x / 2 powi q)))"
    using q e by simp
  have "fl ?x = Fin (of_int (round_half_even (?x / 2 powi q)) * 2 powi q)"
    unfolding fl_pos [OF x] using n by (simp only: q_def [symmetric] if_False)
  then show ?thesis
    by (simp only: r v)
qed

lemma fl_exact:
  assumes m: "0 \<le> m" "m \<le> 2 ^ 53" and e: "- 1074 \<le> e" "e \<le> 900"
  shows "fl (of_int m * 2 powi e) = Fin (of_int m * 2 powi e)"
proof -
  consider "m = 0" | "0 < m" "m < 2 ^ 53" | "m = 2 ^ 53"
    using m by linarith
  then show ?thesis
  proof cases
    case 1
    then show ?thesis by (simp add: fl_def)
  next
    case 2
    then show ?thesis using e by (intro fl_exact_lt) auto
  next
    case 3
    have "of_int m * (2::rat) powi e = of_int (2 ^ 52) * 2 powi (e + 1)"
      by (simp add: 3 power_int_add)
    moreover have "fl (of_int (2 ^ 52) * 2 powi (e + 1)) = Fin (of_int (2 ^ 52) * 2 powi (e + 1))"
      using e by (intro fl_exact_lt) auto
    ultimately show ?thesis by simp
  qed
qed

text \<open>
  Conversely every positive float64 has such a significand and exponent. Hence the integer
  part of a non-negative float64 and what is left above it are float64s again, and the
  latter is at most \<open>1 - 2^-53\<close>.
\<close>

lemma float64_repr:
  assumes "is_float64 v" and "0 < v"
  obtains m q where "v = of_int m * 2 powi q" and "0 < m" and "m \<le> 2 ^ 53" and "- 1074 \<le> q"
proof -
  define q where "q = ulp_exp v"
  define m where "m = round_half_even (v / 2 powi q)"
  have "fl v = Fin v" using assms(1) by (simp add: is_float64_def)
  then have v: "v = of_int m * 2 powi q"
    unfolding fl_pos [OF assms(2)] q_def [symmetric] m_def [symmetric]
    by (simp split: if_splits)
  have q: "- 1074 \<le> q" by (simp add: q_def ulp_exp_def)
  have "v < 2 powi (ilog2 v + 1)"
    by (rule ilog2_bounds(2) [OF assms(2)])
  also have "\<dots> \<le> 2 powi (q + 53)"
    by (simp add: two_powi_le_iff q_def ulp_exp_def)
  also have "\<dots> = 2 powi q * 2 ^ 53"
    by (simp add: power_int_add)
  finally have "v / 2 powi q < 2 ^ 53"
    by (simp add: pos_divide_less_eq mult.commute)
  then have "v / 2 powi q \<le> of_int (2 ^ 53)" by simp
  then have m: "m \<le> 2 ^ 53"
    unfolding m_def by (rule round_half_even_le)
  have "0 < m"
  proof (rule ccontr)
    assume "\<not> 0 < m"
    then have "of_int m * (2::rat) powi q \<le> 0"
      by (intro mult_nonpos_nonneg) auto
    with assms(2) v show False by simp
  qed
  show ?thesis by (rule that [OF v \<open>0 < m\<close> m q])
qed

lemma float64_floor_frac:
  assumes "is_float64 v" and "0 \<le> v"
  shows "fl (of_int \<lfloor>v\<rfloor>) = Fin (of_int \<lfloor>v\<rfloor>)"
    and "fl (v - of_int \<lfloor>v\<rfloor>) = Fin (v - of_int \<lfloor>v\<rfloor>)"
    and "v - of_int \<lfloor>v\<rfloor> \<le> 1 - 1 / 2 ^ 53"
proof -
  have "fl (of_int \<lfloor>v\<rfloor>) = Fin (of_int \<lfloor>v\<rfloor>) \<and>
        fl (v - of_int \<lfloor>v\<rfloor>) = Fin (v - of_int \<lfloor>v\<rfloor>) \<and>
        v - of_int \<lfloor>v\<rfloor> \<le> 1 - 1 / 2 ^ 53"
  proof (cases "v = 0")
    case True
    then show ?thesis by (simp add: fl_def)
  next
    case False
    with assms(2) have "0 < v" by simp
    from float64_repr [OF assms(1) this] obtain m q where
      v: "v = of_int m * 2 powi q" and m: "0 < m" "m \<le> 2 ^ 53" and q: "- 1074 \<le> q"
      by blast
    show ?thesis
    proof (cases "0 \<le> q")
      case True
      then have "v = of_int (m * 2 ^ nat q)"
        by (simp add: v power_int_nonneg_exp)
      then have e: "of_int \<lfloor>v\<rfloor> = v"
        by (metis floor_of_int)
      have "fl (of_int \<lfloor>v\<rfloor>) = Fin (of_int \<lfloor>v\<rfloor>)"
        using assms(1) by (simp only: e is_float64_def)
      moreover have "fl (v - of_int \<lfloor>v\<rfloor>) = Fin (v - of_int \<lfloor>v\<rfloor>)"
        by (simp add: e fl_def)
      moreover have "v - of_int \<lfloor>v\<rfloor> \<le> 1 - 1 / 2 ^ 53"
        by (simp add: e)
      ultimately show ?thesis by blast
    next
      case False
      define k where "k = nat (- q)"
      have k: "0 < k" "q = - int k" using False by (simp_all add: k_def)
      have v': "v = of_int m / of_int (2 ^ k)"
        by (simp add: v k power_int_minus_divide)
      have fv: "\<lfloor>v\<rfloor> = m div 2 ^ k"
        unfolding v' by (rule floor_divide_of_int_eq)
      have "(of_int m - of_int (m div 2 ^ k) * 2 ^ k :: rat) = of_int (m - m div 2 ^ k * 2 ^ k)"
        by simp
      also have "\<dots> = of_int (m mod 2 ^ k)"
        by (simp only: minus_div_mult_eq_mod)
      finally have md: "(of_int m - of_int (m div 2 ^ k) * 2 ^ k :: rat) = of_int (m mod 2 ^ k)" .
      have "v - of_int \<lfloor>v\<rfloor> = of_int m / 2 ^ k - of_int (m div 2 ^ k)"
        by (simp only: fv) (simp add: v')
      also have "\<dots> = (of_int m - of_int (m div 2 ^ k) * 2 ^ k) / 2 ^ k"
        by (simp add: field_simps)
      also have "\<dots> = of_int (m mod 2 ^ k) * 2 powi q"
        by (simp only: md) (simp add: k power_int_minus_divide)
      finally have fr: "v - of_int \<lfloor>v\<rfloor> = of_int (m mod 2 ^ k) * 2 powi q" .
      have d: "0 \<le> m div 2 ^ k" "m div 2 ^ k \<le> 2 ^ 53"
      proof -
        show "0 \<le> m div 2 ^ k"
          using m(1) by (simp add: pos_imp_zdiv_nonneg_iff)
        have "m div 2 ^ k \<le> m"
          using m(1) by (intro int_div_le_self) auto
        with m(2) show "m div 2 ^ k \<le> 2 ^ 53" by linarith
      qed
      have r: "0 \<le> m mod 2 ^ k" "m mod 2 ^ k \<le> 2 ^ 53" "m mod 2 ^ k < 2 ^ k"
      proof -
        show "0 \<le> m mod 2 ^ k" "m mod 2 ^ k < 2 ^ k" by simp_all
        have "m mod 2 ^ k \<le> m"
          using m(1) by (intro zmod_le_nonneg_dividend) auto
        with m(2) show "m mod 2 ^ k \<le> 2 ^ 53" by linarith
      qed
      have 1: "fl (of_int \<lfloor>v\<rfloor>) = Fin (of_int \<lfloor>v\<rfloor>)"
        using fl_exact [OF d, of 0] by (simp add: fv)
      have 2: "fl (v - of_int \<lfloor>v\<rfloor>) = Fin (v - of_int \<lfloor>v\<rfloor>)"
        unfolding fr using q False by (intro fl_exact r) auto
      have 3: "v - of_int \<lfloor>v\<rfloor> \<le> 1 - 1 / 2 ^ 53"
      proof (cases "k \<le> 53")
        case True
        have "m mod 2 ^ k \<le> 2 ^ k - 1" using r(3) by simp
        then have "(of_int (m mod 2 ^ k) :: rat) \<le> of_int (2 ^ k - 1)"
          by (simp only: of_int_le_iff)
        then have "v - of_int \<lfloor>v\<rfloor> \<le> (2 ^ k - 1) / 2 ^ k"
          by (simp add: fr k power_int_minus_divide divide_right_mono)
        also have "\<dots> = 1 - 1 / 2 ^ k"
          by (simp add: field_simps)
        also have "\<dots> \<le> 1 - 1 / 2 ^ 53"
        proof -
          have "(2::rat) ^ k \<le> 2 ^ 53" using True by (intro power_increasing) auto
          then have "1 / (2::rat) ^ 53 \<le> 1 / 2 ^ k"
            by (intro divide_left_mono) auto
          then show ?thesis by simp
        qed
        finally show ?thesis .
      next
        case False
        then have "54 \<le> k" by simp
        then have "(2::rat) ^ 54 \<le> 2 ^ k" by (intro power_increasing) auto
        have "(of_int (m mod 2 ^ k) :: rat) \<le> of_int (2 ^ 53)"
          using r(2) by (simp only: of_int_le_iff)
        then have "v - of_int \<lfloor>v\<rfloor> \<le> 2 ^ 53 / 2 ^ k"
          by (simp add: fr k power_int_minus_divide divide_right_mono)
        also have "\<dots> \<le> 2 ^ 53 / 2 ^ 54"
          using \<open>(2::rat) ^ 54 \<le> 2 ^ k\<close> by (intro divide_left_mono) auto
        also have "\<dots> \<le> 1 - 1 / 2 ^ 53" by simp
        finally show ?thesis .
      qed
      from 1 2 3 show ?thesis by blast
    qed
  qed
  then show "fl (of_int \<lfloor>v\<rfloor>) = Fin (of_int \<lfloor>v\<rfloor>)"
    and "fl (v - of_int \<lfloor>v\<rfloor>) = Fin (v - of_int \<lfloor>v\<rfloor>)"
    and "v - of_int \<lfloor>v\<rfloor> \<le> 1 - 1 / 2 ^ 53"
    by blast+
qed

subsection \<open>The product with 1e9\<close>

text \<open>
  Rounding moves a number below \<open>2^30\<close> by at most \<open>2^-24\<close>, so the rounded product of
  a fraction of at most \<open>1 - 2^-53\<close> with \<open>10^9\<close> stays below \<open>10^9\<close>.
\<close>

lemma fl_nanos_bound:
  assumes "0 \<le> y" and "y \<le> (1 - 1 / 2 ^ 53) * 1000000000"
  shows "\<exists>p. fl y = Fin p \<and> 0 \<le> p \<and> p < 1000000000"
proof (cases "y = 0")
  case True
  then show ?thesis by (simp add: fl_def)
next
  case False
  with assms(1) have y: "0 < y" by simp
  define q where "q = ulp_exp y"
  define m where "m = round_half_even (y / 2 powi q)"
  have "y < 2 powi 30"
    using assms(2) by simp
  then have "ilog2 y < 30"
    by (rule ilog2_less [OF y])
  then have q: "q \<le> - 23"
    by (simp add: q_def ulp_exp_def)
  then have n: "\<not> (971 < q \<or> (q = 971 \<and> 2 ^ 53 \<le> m))"
    by simp
  have f: "fl y = Fin (of_int m * 2 powi q)"
    unfolding fl_pos [OF y] using n by (simp only: q_def [symmetric] m_def [symmetric] if_False)
  have m0: "0 \<le> m"
    unfolding m_def using y by (intro round_half_even_nonneg) simp
  have "\<bar>of_int m - y / 2 powi q\<bar> \<le> 1 / 2"
    unfolding m_def by (rule round_half_even_error)
  then have "of_int m \<le> y / 2 powi q + 1 / 2"
    by linarith
  then have "of_int m * 2 powi q \<le> (y / 2 powi q + 1 / 2) * 2 powi q"
    by (intro mult_right_mono) auto
  also have "\<dots> = y + 2 powi q / 2"
    by (simp add: field_simps)
  also have "\<dots> \<le> y + 2 powi (- 23) / 2"
  proof -
    have "(2::rat) powi q \<le> 2 powi (- 23)"
      using q by (simp only: two_powi_le_iff)
    then show ?thesis by linarith
  qed
  also have "\<dots> < 1000000000"
    using assms(2) by simp
  finally have "of_int m * 2 powi q < (1000000000::rat)" .
  moreover have "0 \<le> of_int m * (2::rat) powi q"
    using m0 by simp
  ultimately show ?thesis using f by blast
qed

section \<open>The timestamp parser on float64 values\<close>

text \<open>
  For a non-negative value below \<open>2^63\<close> the conversions and the subtraction are exact,
  and \<open>time.Unix\<close> has nothing to carry.
\<close>

lemma trunc_nonneg: "0 \<le> q \<Longrightarrow> trunc q = \<lfloor>q\<rfloor>"
  by (simp add: trunc_def)

lemma parseLagerTimestamp_nonneg:
  assumes pf: "ParseFloat env ts = Inr (Fin v)"
    and fv: "is_float64 v" and v0: "0 \<le> v" and v63: "v < 2 ^ 63"
  shows "\<exists>p. fl ((v - of_int (trunc v)) * 1000000000) = Fin p \<and> 0 \<le> p \<and> p < 1000000000 \<and>
    parseLagerTimestamp env ts = Inr \<lparr>unix_sec = trunc v, nanosecond = trunc p\<rparr>"
proof -
  have t: "trunc v = \<lfloor>v\<rfloor>" using v0 by (rule trunc_nonneg)
  have s0: "0 \<le> \<lfloor>v\<rfloor>" using v0 by simp
  have "v < of_int (2 ^ 63)" using v63 by simp
  then have s1: "\<lfloor>v\<rfloor> < 2 ^ 63" by (simp only: floor_less_iff)
  have sec: "int64_of_float64 (conv_unrep env) (Fin v) = \<lfloor>v\<rfloor>"
    using s0 s1 by (simp add: int64_of_float64_def t)
  note ff = float64_floor_frac [OF fv v0]
  have f0: "0 \<le> v - of_int \<lfloor>v\<rfloor>" by linarith
  have "(v - of_int \<lfloor>v\<rfloor>) * 1000000000 \<le> (1 - 1 / 2 ^ 53) * 1000000000"
    using ff(3) by (intro mult_right_mono) auto
  moreover have "0 \<le> (v - of_int \<lfloor>v\<rfloor>) * 1000000000"
    using f0 by simp
  ultimately obtain p where p: "fl ((v - of_int \<lfloor>v\<rfloor>) * 1000000000) = Fin p"
    and p0: "0 \<le> p" and p1: "p < 1000000000"
    using fl_nanos_bound by blast
  have mul: "f64_mul (f64_sub (Fin v) (float64_of_int64 \<lfloor>v\<rfloor>)) (Fin 1000000000) = Fin p"
  proof -
    have "f64_sub (Fin v) (float64_of_int64 \<lfloor>v\<rfloor>) = Fin (v - of_int \<lfloor>v\<rfloor>)"
      by (simp only: float64_of_int64_def ff(1) f64_sub.simps ff(2))
    then show ?thesis
      by (simp only: f64_mul.simps p)
  qed
  have n0: "0 \<le> \<lfloor>p\<rfloor>" using p0 by simp
  have "p < of_int 1000000000" using p1 by simp
  then have n1: "\<lfloor>p\<rfloor> < 1000000000" by (simp only: floor_less_iff)
  have tp: "trunc p = \<lfloor>p\<rfloor>" using p0 by (rule trunc_nonneg)
  have nan: "int64_of_float64 (conv_unrep env) (Fin p) = \<lfloor>p\<rfloor>"
    using n0 n1 by (simp add: int64_of_float64_def tp)
  have "parseLagerTimestamp env ts = Inr (Unix \<lfloor>v\<rfloor> \<lfloor>p\<rfloor>)"
    by (simp add: parseLagerTimestamp_def pf sec mul nan Let_def)
  also have "Unix \<lfloor>v\<rfloor> \<lfloor>p\<rfloor> = \<lparr>unix_sec = \<lfloor>v\<rfloor>, nanosecond = \<lfloor>p\<rfloor>\<rparr>"
    using n0 n1 by (simp add: Unix_def)
  finally show ?thesis
    using p p0 p1 by (simp add: t tp)
qed

text \<open>
  Rounding is symmetric, so a negative value above \<open>-2^63\<close> gives the mirrored seconds
  and nanoseconds; a negative nanosecond count is then carried by \<open>time.Unix\<close> into the
  seconds.
\<close>

lemma fl_neg: "fl (- x) = f64_neg (fl x)"
  by (cases "0 < x") (auto simp: fl_def Let_def not_less)

lemma trunc_neg: "trunc (- q) = - trunc q"
  by (auto simp: trunc_def ceiling_minus floor_minus)

lemma i64_id: "- (2 ^ 63) \<le> x \<Longrightarrow> x < 2 ^ 63 \<Longrightarrow> i64 x = x"
  unfolding i64_def by (rule signed_take_bit_int_eq_self) simp_all

lemma Unix_carry:
  assumes "- (2 ^ 63) < sec" and "sec < 2 ^ 63" and "- 1000000000 < nsec" and "nsec < 0"
  shows "Unix sec nsec = \<lparr>unix_sec = sec - 1, nanosecond = nsec + 1000000000\<rparr>"
proof -
  have d: "tdiv nsec 1000000000 = 0"
    using assms(3,4) by (simp add: tdiv_def div_pos_pos_trivial)
  have a: "i64 sec = sec" "i64 nsec = nsec" "i64 (sec - 1) = sec - 1"
    "i64 (nsec + 1000000000) = nsec + 1000000000" "i64 0 = 0"
    using assms by (simp_all add: i64_id)
  show ?thesis
    using assms(4) by (simp add: Unix_def d a Let_def)
qed

lemma parseLagerTimestamp_neg:
  assumes pf: "ParseFloat env ts = Inr (Fin v)"
    and fv: "is_float64 v" and v0: "v < 0" and v63: "- (2 ^ 63) < v"
  shows "\<exists>p. f64_mul (f64_sub (Fin v) (float64_of_int64 (trunc v))) (Fin 1000000000) = Fin p \<and>
    f64_sub (Fin v) (float64_of_int64 (trunc v)) = Fin (v - of_int (trunc v)) \<and>
    - 1000000000 < trunc p \<and> trunc p \<le> 0 \<and>
    parseLagerTimestamp env ts =
      Inr (if trunc p = 0 then \<lparr>unix_sec = trunc v, nanosecond = 0\<rparr>
           else \<lparr>unix_sec = trunc v - 1, nanosecond = trunc p + 1000000000\<rparr>)"
proof -
  define u where "u = - v"
  have v: "v = - u" by (simp add: u_def)
  have u0: "0 \<le> u" and u63: "u < 2 ^ 63" using v0 v63 by (simp_all add: u_def)
  have fu: "is_float64 u"
    using fv by (simp add: is_float64_def u_def fl_neg)
  have t: "trunc v = - \<lfloor>u\<rfloor>"
    unfolding v trunc_neg using u0 by (simp add: trunc_nonneg)
  have s0: "0 \<le> \<lfloor>u\<rfloor>" using u0 by simp
  have "u < of_int (2 ^ 63)" using u63 by simp
  then have s1: "\<lfloor>u\<rfloor> < 2 ^ 63" by (simp only: floor_less_iff)
  have pw: "(2::int) ^ 63 = 9223372036854775808" by simp
  have r: "- (2 ^ 63) \<le> - \<lfloor>u\<rfloor>" "- \<lfloor>u\<rfloor> < 2 ^ 63"
    using s0 s1 unfolding pw by linarith+
  have sec: "int64_of_float64 (conv_unrep env) (Fin v) = - \<lfloor>u\<rfloor>"
    unfolding int64_of_float64_def float64.case t using r by (simp only: conj_imp_eq_imp_imp if_True simp_thms)
  note ff = float64_floor_frac [OF fu u0]
  have f0: "0 \<le> u - of_int \<lfloor>u\<rfloor>" by linarith
  have "(u - of_int \<lfloor>u\<rfloor>) * 1000000000 \<le> (1 - 1 / 2 ^ 53) * 1000000000"
    using ff(3) by (intro mult_right_mono) auto
  moreover have "0 \<le> (u - of_int \<lfloor>u\<rfloor>) * 1000000000"
    using f0 by simp
  ultimately obtain p where p: "fl ((u - of_int \<lfloor>u\<rfloor>) * 1000000000) = Fin p"
    and p0: "0 \<le> p" and p1: "p < 1000000000"
    using fl_nanos_bound by blast
  have fs: "float64_of_int64 (- \<lfloor>u\<rfloor>) = Fin (- of_int \<lfloor>u\<rfloor>)"
    using fl_neg [of "of_int \<lfloor>u\<rfloor>"] by (simp add: float64_of_int64_def ff(1))
  have e1: "v - - of_int \<lfloor>u\<rfloor> = - (u - of_int \<lfloor>u\<rfloor>)"
    by (simp add: v)
  have sub: "f64_sub (Fin v) (float64_of_int64 (- \<lfloor>u\<rfloor>)) = Fin (- (u - of_int \<lfloor>u\<rfloor>))"
    by (simp only: fs f64_sub.simps e1 fl_neg ff(2) f64_neg.simps)
  have e2: "- (u - of_int \<lfloor>u\<rfloor>) * 1000000000 = - ((u - of_int \<lfloor>u\<rfloor>) * 1000000000)"
    by simp
  have mul: "f64_mul (f64_sub (Fin v) (float64_of_int64 (- \<lfloor>u\<rfloor>))) (Fin 1000000000) = Fin (- p)"
    by (simp only: sub f64_mul.simps e2 fl_neg p f64_neg.simps)
  have n0: "0 \<le> \<lfloor>p\<rfloor>" using p0 by simp
  have "p < of_int 1000000000" using p1 by simp
  then have n1: "\<lfloor>p\<rfloor> < 1000000000" by (simp only: floor_less_iff)
  have tp: "trunc (- p) = - \<lfloor>p\<rfloor>"
    unfolding trunc_neg using p0 by (simp add: trunc_nonneg)
  have r': "- (2 ^ 63) \<le> - \<lfloor>p\<rfloor>" "- \<lfloor>p\<rfloor> < 2 ^ 63"
    using n0 n1 unfolding pw by linarith+
  have nan: "int64_of_float64 (conv_unrep env) (Fin (- p)) = - \<lfloor>p\<rfloor>"
    unfolding int64_of_float64_def float64.case tp using r' by (simp only: if_True simp_thms)
  have pl: "parseLagerTimestamp env ts = Inr (Unix (- \<lfloor>u\<rfloor>) (- \<lfloor>p\<rfloor>))"
    by (simp add: parseLagerTimestamp_def pf sec mul nan Let_def)
  have ux: "Unix (- \<lfloor>u\<rfloor>) (- \<lfloor>p\<rfloor>) =
      (if \<lfloor>p\<rfloor> = 0 then \<lparr>unix_sec = - \<lfloor>u\<rfloor>, nanosecond = 0\<rparr>
       else \<lparr>unix_sec = - \<lfloor>u\<rfloor> - 1, nanosecond = - \<lfloor>p\<rfloor> + 1000000000\<rparr>)"
  proof (cases "\<lfloor>p\<rfloor> = 0")
    case True
    then show ?thesis by (simp add: Unix_def)
  next
    case False
    with n0 have "0 < \<lfloor>p\<rfloor>" by linarith
    then have c: "- (2 ^ 63) < - \<lfloor>u\<rfloor>" "- \<lfloor>u\<rfloor> < 2 ^ 63"
        "- 1000000000 < - \<lfloor>p\<rfloor>" "- \<lfloor>p\<rfloor> < 0"
      using s0 s1 n1 unfolding pw by linarith+
    show ?thesis
      unfolding Unix_carry [OF c] using False by (simp only: if_False)
  qed
  have "f64_mul (f64_sub (Fin v) (float64_of_int64 (trunc v))) (Fin 1000000000) = Fin (- p)"
    by (simp only: t mul)
  moreover have "f64_sub (Fin v) (float64_of_int64 (trunc v)) = Fin (v - of_int (trunc v))"
    by (simp only: t sub) (simp add: v)
  moreover have "- 1000000000 < trunc (- p)" "trunc (- p) \<le> 0"
    using n0 n1 by (simp_all add: tp)
  moreover have "parseLagerTimestamp env ts =
      Inr (if trunc (- p) = 0 then \<lparr>unix_sec = trunc v, nanosecond = 0\<rparr>
           else \<lparr>unix_sec = trunc v - 1, nanosecond = trunc (- p) + 1000000000\<rparr>)"
    by (simp only: pl ux t tp) simp
  ultimately show ?thesis by blast
qed

section \<open>The severity filter\<close>

text \<open>
  C2. A record whose level is below the sink's minimum level makes \<open>Log\<close> return at once:
  the world is the one before the call (no event is sent, nothing is printed) and the
  caller's data map is the one passed in.
\<close>

theorem Log_below_minimum:
  "LogLevel logFormat < minLogLevel snk \<Longrightarrow> Log env snk logFormat w = (Data logFormat, w)"
  by (simp add: Log_def)

text \<open>
  An INFO record given to a sink whose minimum level is ERROR.
\<close>

theorem Log_below_minimum_witness:
  "LogLevel example_record < minLogLevel (NewSink ''key'' ''dataset'' ERROR) \<and>
   Log example_env (NewSink ''key'' ''dataset'' ERROR) example_record world0
     = (Data example_record, world0)"
proof -
  have h: "LogLevel example_record < minLogLevel (NewSink ''key'' ''dataset'' ERROR)"
    by (simp add: example_record_def NewSink_def INFO_def ERROR_def)
  from h Log_below_minimum [OF h] show ?thesis by simp
qed

section \<open>The submitted event\<close>

text \<open>
  C1, as the code has it. A record whose level is at least the minimum level of a sink made
  by \<open>NewSink\<close> makes one call of \<open>Log\<close> hand exactly one event to \<open>Send\<close>. Every
  entry of the record's data other than \<open>session\<close> is a field of the event with its value
  (an entry under \<open>lager_timestamp_parse_error\<close> only when the timestamp parses). The four
  lager fields, the call-site field \<open>function\<close> (when the runtime resolves the caller), the
  field \<open>lager_session\<close> (when the data has a session) and the two dynamic fields have the
  values the specification gives them whenever the data has no entry under the same key: the data
  is added after them and replaces them.
\<close>

theorem Log_submits_one_event:
  assumes "minLevel \<le> LogLevel lf"
  shows "\<exists>ev. sends (snd (Log env (NewSink wk ds minLevel) lf w)) = sends w @ [ev] \<and>
    (\<forall>k v. Data lf k = Some v \<and> k \<noteq> ''session'' \<and>
       (k = ''lager_timestamp_parse_error'' \<longrightarrow> (\<exists>t. parseLagerTimestamp env (Timestamp lf) = Inr t))
       \<longrightarrow> ev_fields ev k = Some v) \<and>
    (''lager_source'' \<notin> dom (Data lf) \<longrightarrow> ev_fields ev ''lager_source'' = Some (VStr (Source lf))) \<and>
    (''lager_message'' \<notin> dom (Data lf) \<longrightarrow> ev_fields ev ''lager_message'' = Some (VStr (Message lf))) \<and>
    (''lager_log_level_iota'' \<notin> dom (Data lf) \<longrightarrow>
       ev_fields ev ''lager_log_level_iota'' = Some (VInt (LogLevel lf))) \<and>
    (''lager_log_level'' \<notin> dom (Data lf) \<longrightarrow>
       ev_fields ev ''lager_log_level'' = Some (VStr (logLevelToString (LogLevel lf)))) \<and>
    (\<forall>f. Caller2 env = Some f \<and> ''function'' \<notin> dom (Data lf) \<longrightarrow>
       ev_fields ev ''function'' = Some (VStr f)) \<and>
    (\<forall>s. Data lf ''session'' = Some s \<and> ''lager_session'' \<notin> dom (Data lf) \<longrightarrow>
       ev_fields ev ''lager_session'' = Some s) \<and>
    (''num_goroutines'' \<notin> dom (Data lf) \<longrightarrow>
       ev_fields ev ''num_goroutines'' = Some (VInt (NumGoroutine env))) \<and>
    (''memory_allocation'' \<notin> dom (Data lf) \<longrightarrow>
       ev_fields ev ''memory_allocation'' = Some (VInt (int (MemStats_Alloc env))))"
proof -
  have "minLogLevel (NewSink wk ds minLevel) \<le> LogLevel lf"
    using assms by (simp add: NewSink_def)
  from Log_event [OF this, of env w] obtain ev where
    ev: "snd (Log env (NewSink wk ds minLevel) lf w) = Send env ev w"
    and fs: "ev_fields ev =
       ev_fields (NewEvent env (sink_builder (NewSink wk ds minLevel)))
         ++ (case Caller2 env of None \<Rightarrow> Map.empty | Some f \<Rightarrow> [''function'' \<mapsto> VStr f])
         ++ [''lager_source'' \<mapsto> VStr (Source lf),
             ''lager_message'' \<mapsto> VStr (Message lf),
             ''lager_log_level_iota'' \<mapsto> VInt (LogLevel lf),
             ''lager_log_level'' \<mapsto> VStr (logLevelToString (LogLevel lf))]
         ++ (case Data lf ''session'' of None \<Rightarrow> Map.empty | Some s \<Rightarrow> [''lager_session'' \<mapsto> s])
         ++ (Data lf)(''session'' := None)
         ++ (case parseLagerTimestamp env (Timestamp lf) of
               Inl err \<Rightarrow> [''lager_timestamp_parse_error'' \<mapsto> VErr err]
             | Inr t \<Rightarrow> Map.empty)"
    by blast
  have "sends (snd (Log env (NewSink wk ds minLevel) lf w)) = sends w @ [ev]"
    by (simp add: ev)
  moreover have "\<forall>k v. Data lf k = Some v \<and> k \<noteq> ''session'' \<and>
       (k = ''lager_timestamp_parse_error'' \<longrightarrow> (\<exists>t. parseLagerTimestamp env (Timestamp lf) = Inr t))
       \<longrightarrow> ev_fields ev k = Some v"
    by (auto simp: fs map_add_def split: sum.splits option.splits)
  moreover have "''lager_source'' \<notin> dom (Data lf) \<longrightarrow> ev_fields ev ''lager_source'' = Some (VStr (Source lf))"
    by (auto simp: fs map_add_def dom_def split: sum.splits option.splits)
  moreover have "''lager_message'' \<notin> dom (Data lf) \<longrightarrow> ev_fields ev ''lager_message'' = Some (VStr (Message lf))"
    by (auto simp: fs map_add_def dom_def split: sum.splits option.splits)
  moreover have "''lager_log_level_iota'' \<notin> dom (Data lf) \<longrightarrow>
       ev_fields ev ''lager_log_level_iota'' = Some (VInt (LogLevel lf))"
    by (auto simp: fs map_add_def dom_def split: sum.splits option.splits)
  moreover have "''lager_log_level'' \<notin> dom (Data lf) \<longrightarrow>
       ev_fields ev ''lager_log_level'' = Some (VStr (logLevelToString (LogLevel lf)))"
    by (auto simp: fs map_add_def dom_def split: sum.splits option.splits)
  moreover have "\<forall>f. Caller2 env = Some f \<and> ''function'' \<notin> dom (Data lf) \<longrightarrow>
       ev_fields ev ''function'' = Some (VStr f)"
    by (auto simp: fs map_add_def dom_def split: sum.splits option.splits)
  moreover have "\<forall>s. Data lf ''session'' = Some s \<and> ''lager_session'' \<notin> dom (Data lf) \<longrightarrow>
       ev_fields ev ''lager_session'' = Some s"
    by (auto simp: fs map_add_def dom_def split: sum.splits option.splits)
  moreover have "''num_goroutines'' \<notin> dom (Data lf) \<longrightarrow>
       ev_fields ev ''num_goroutines'' = Some (VInt (NumGoroutine env))"
    by (auto simp: fs NewEvent_NewSink map_add_def dom_def split: sum.splits option.splits)
  moreover have "''memory_allocation'' \<notin> dom (Data lf) \<longrightarrow>
       ev_fields ev ''memory_allocation'' = Some (VInt (int (MemStats_Alloc env)))"
    by (auto simp: fs NewEvent_NewSink map_add_def dom_def split: sum.splits option.splits)
  ultimately show ?thesis by blast
qed

text \<open>
  Without the proviso the statement fails: a record from the source \<open>my-component\<close> whose data
  has an entry \<open>lager_source\<close> is sent with that entry as its \<open>lager_source\<close>.
\<close>

theorem Log_data_overrides_lager_source:
  "map (\<lambda>ev. ev_fields ev ''lager_source'')
     (sends (snd (Log example_env (NewSink ''key'' ''dataset'' DEBUG)
        (example_record\<lparr>Data := [''lager_source'' \<mapsto> VStr ''spoofed'']\<rparr>) world0)))
   = [Some (VStr ''spoofed'')]
   \<and> Source (example_record\<lparr>Data := [''lager_source'' \<mapsto> VStr ''spoofed'']\<rparr>) = ''my-component''
   \<and> Some (VStr ''spoofed'')
        \<noteq> Some (VStr (Source (example_record\<lparr>Data := [''lager_source'' \<mapsto> VStr ''spoofed'']\<rparr>)))
   \<and> minLogLevel (NewSink ''key'' ''dataset'' DEBUG)
        \<le> LogLevel (example_record\<lparr>Data := [''lager_source'' \<mapsto> VStr ''spoofed'']\<rparr>)"
proof -
  have h: "minLogLevel (NewSink ''key'' ''dataset'' DEBUG)
        \<le> LogLevel (example_record\<lparr>Data := [''lager_source'' \<mapsto> VStr ''spoofed'']\<rparr>)"
    by (simp add: NewSink_def example_record_simps DEBUG_def INFO_def)
  from Log_event [OF h, of example_env world0] h show ?thesis
    by (auto simp: example_record_simps world0_def map_add_def parse_example_timestamp)
qed

text \<open>
  The example record, sent through a sink with minimum level DEBUG.
\<close>

theorem Log_submits_one_event_witness:
  "DEBUG \<le> LogLevel example_record \<and>
   (\<exists>ev. sends (snd (Log example_env (NewSink ''key'' ''dataset'' DEBUG) example_record world0)) = [ev] \<and>
      ev_fields ev ''method'' = Some (VStr ''get'') \<and>
      ev_fields ev ''lager_source'' = Some (VStr ''my-component'') \<and>
      ev_fields ev ''lager_message'' = Some (VStr ''my-component.some-action'') \<and>
      ev_fields ev ''lager_log_level_iota'' = Some (VInt 1) \<and>
      ev_fields ev ''lager_log_level'' = Some (VStr ''INFO'') \<and>
      ev_fields ev ''function'' = Some (VStr ''main.main'') \<and>
      ev_fields ev ''lager_session'' = Some (VStr ''7'') \<and>
      ev_fields ev ''num_goroutines'' = Some (VInt 4) \<and>
      ev_fields ev ''memory_allocation'' = Some (VInt 4096))"
proof -
  have h: "DEBUG \<le> LogLevel example_record"
    by (simp add: example_record_def DEBUG_def INFO_def)
  have l: "logLevelToString INFO = ''INFO''"
    by (simp add: logLevelToString_def DEBUG_def INFO_def)
  from Log_submits_one_event [OF h, of example_env "''key''" "''dataset''" world0]
  obtain ev where ev:
    "sends (snd (Log example_env (NewSink ''key'' ''dataset'' DEBUG) example_record world0)) = sends world0 @ [ev] \<and>
    (\<forall>k v. Data example_record k = Some v \<and> k \<noteq> ''session'' \<and>
       (k = ''lager_timestamp_parse_error'' \<longrightarrow> (\<exists>t. parseLagerTimestamp example_env (Timestamp example_record) = Inr t))
       \<longrightarrow> ev_fields ev k = Some v) \<and>
    (''lager_source'' \<notin> dom (Data example_record) \<longrightarrow> ev_fields ev ''lager_source'' = Some (VStr (Source example_record))) \<and>
    (''lager_message'' \<notin> dom (Data example_record) \<longrightarrow> ev_fields ev ''lager_message'' = Some (VStr (Message example_record))) \<and>
    (''lager_log_level_iota'' \<notin> dom (Data example_record) \<longrightarrow>
       ev_fields ev ''lager_log_level_iota'' = Some (VInt (LogLevel example_record))) \<and>
    (''lager_log_level'' \<notin> dom (Data example_record) \<longrightarrow>
       ev_fields ev ''lager_log_level'' = Some (VStr (logLevelToString (LogLevel example_record)))) \<and>
    (\<forall>f. Caller2 example_env = Some f \<and> ''function'' \<notin> dom (Data example_record) \<longrightarrow>
       ev_fields ev ''function'' = Some (VStr f)) \<and>
    (\<forall>s. Data example_record ''session'' = Some s \<and> ''lager_session'' \<notin> dom (Data example_record) \<longrightarrow>
       ev_fields ev ''lager_session'' = Some s) \<and>
    (''num_goroutines'' \<notin> dom (Data example_record) \<longrightarrow>
       ev_fields ev ''num_goroutines'' = Some (VInt (NumGoroutine example_env))) \<and>
    (''memory_allocation'' \<notin> dom (Data example_record) \<longrightarrow>
       ev_fields ev ''memory_allocation'' = Some (VInt (int (MemStats_Alloc example_env))))" ..
  note s = ev [THEN conjunct1] and r1 = ev [THEN conjunct2]
  note d = r1 [THEN conjunct1] and r2 = r1 [THEN conjunct2]
  note f1 = r2 [THEN conjunct1] and r3 = r2 [THEN conjunct2]
  note f2 = r3 [THEN conjunct1] and r4 = r3 [THEN conjunct2]
  note f3 = r4 [THEN conjunct1] and r5 = r4 [THEN conjunct2]
  note f4 = r5 [THEN conjunct1] and r6 = r5 [THEN conjunct2]
  note f5 = r6 [THEN conjunct1] and r7 = r6 [THEN conjunct2]
  note f6 = r7 [THEN conjunct1] and r8 = r7 [THEN conjunct2]
  note f7 = r8 [THEN conjunct1] and f8 = r8 [THEN conjunct2]
  have "sends (snd (Log example_env (NewSink ''key'' ''dataset'' DEBUG) example_record world0)) = [ev]"
    using s by (simp add: world0_def)
  moreover have "ev_fields ev ''method'' = Some (VStr ''get'')"
    using d [rule_format, of "''method''" "VStr ''get''"] by (simp add: example_record_simps)
  moreover have "ev_fields ev ''lager_source'' = Some (VStr ''my-component'')"
    using f1 by (simp add: example_record_simps)
  moreover have "ev_fields ev ''lager_message'' = Some (VStr ''my-component.some-action'')"
    using f2 by (simp add: example_record_simps)
  moreover have "ev_fields ev ''lager_log_level_iota'' = Some (VInt 1)"
    using f3 by (simp add: example_record_simps INFO_def)
  moreover have "ev_fields ev ''lager_log_level'' = Some (VStr ''INFO'')"
    using f4 by (simp add: example_record_simps l)
  moreover have "ev_fields ev ''function'' = Some (VStr ''main.main'')"
    using f5 [rule_format, of "''main.main''"] by (simp add: example_record_simps example_env_simps)
  moreover have "ev_fields ev ''lager_session'' = Some (VStr ''7'')"
    using f6 [rule_format, of "VStr ''7''"] by (simp add: example_record_simps)
  moreover have "ev_fields ev ''num_goroutines'' = Some (VInt 4)"
    using f7 by (simp add: example_record_simps example_env_simps)
  moreover have "ev_fields ev ''memory_allocation'' = Some (VInt 4096)"
    using f8 by (simp add: example_record_simps example_env_simps)
  ultimately show ?thesis using h by blast
qed

section \<open>The correlation token\<close>




section \<open>The timestamp that parses\<close>

lemma trunc_examples:
  "trunc (6311609190713745 / 4194304) = 1504804895"
  "trunc (772783203125 / 8192) = 94333887"
  "trunc (- (3 / 2)) = - 1"
  by code_simp+

lemma fl_example: "fl (1504804895094333887 / 1000000000) = Fin (6311609190713745 / 4194304)"
  by code_simp

lemma is_float64_example: "is_float64 (6311609190713745 / 4194304)"
  by code_simp

lemma is_float64_neg_example: "is_float64 (- (3 / 2))"
  by code_simp

lemma f64_mul_neg_example:
  "f64_mul (Fin (- (3 / 2) - of_int (trunc (- (3 / 2))))) (Fin 1000000000) = Fin (- 500000000)"
  by code_simp

lemma trunc_neg_nanos: "trunc (- 500000000) = - 500000000"
  by code_simp

text \<open>
  The product is a float64 product: for \<open>0.7\<close> the parsed value is below \<open>7/10\<close>, its exact
  product with \<open>10^9\<close> is below \<open>700000000\<close>, and the rounded product is \<open>700000000\<close>.
\<close>

lemma float64_product_rounds:
  "fl (7 / 10) = Fin (3152519739159347 / 4503599627370496) \<and>
   trunc (3152519739159347 / 4503599627370496 * 1000000000) = 699999999 \<and>
   f64_mul (Fin (3152519739159347 / 4503599627370496)) (Fin 1000000000) = Fin 700000000"
  by code_simp

lemma f64_mul_example:
  "f64_mul (Fin (6311609190713745 / 4194304 - of_int (trunc (6311609190713745 / 4194304))))
     (Fin 1000000000) = Fin (772783203125 / 8192)"
  by code_simp

text \<open>
  C5, as the code has it. Let the timestamp parse to a finite float64 \<open>v\<close> with
  \<open>-2^63 < v < 2^63\<close>. The seconds passed to \<open>time.Unix\<close> are \<open>v\<close> truncated towards
  zero; the difference of \<open>v\<close> and these seconds is exact; the nanoseconds passed are the
  float64 product \<open>p\<close> of that difference with \<open>1e9\<close>, truncated towards zero. When the
  truncated \<open>p\<close> is not negative, which is so for every \<open>v \<ge> 0\<close>, the resolved time has
  these seconds and nanoseconds. When it is negative, \<open>time.Unix\<close> carries: the resolved
  time has one second less and \<open>10^9\<close> nanoseconds more. The nanoseconds of the resolved
  time are always in \<open>[0, 10^9)\<close>. In particular, if the parser returns the float64 nearest
  to \<open>1504804895.094333887\<close>, the resolved seconds are \<open>1504804895\<close>.
\<close>

theorem parseLagerTimestamp_components:
  assumes "ParseFloat env ts = Inr (Fin v)" and "is_float64 v"
    and "- (2 ^ 63) < v" and "v < 2 ^ 63"
  shows "\<exists>p t.
    f64_sub (Fin v) (float64_of_int64 (trunc v)) = Fin (v - of_int (trunc v)) \<and>
    f64_mul (Fin (v - of_int (trunc v))) (Fin 1000000000) = Fin p \<and>
    parseLagerTimestamp env ts = Inr t \<and>
    (0 \<le> trunc p \<longrightarrow> unix_sec t = trunc v \<and> nanosecond t = trunc p) \<and>
    (trunc p < 0 \<longrightarrow> unix_sec t = trunc v - 1 \<and> nanosecond t = trunc p + 1000000000) \<and>
    (0 \<le> v \<longrightarrow> 0 \<le> trunc p) \<and>
    0 \<le> nanosecond t \<and> nanosecond t < 1000000000 \<and>
    (Fin v = fl (1504804895094333887 / 1000000000) \<longrightarrow> unix_sec t = 1504804895)"
proof (cases "0 \<le> v")
  case True
  from parseLagerTimestamp_nonneg [OF assms(1,2) True assms(4)] obtain p where
    p: "fl ((v - of_int (trunc v)) * 1000000000) = Fin p" "0 \<le> p" "p < 1000000000"
    and t: "parseLagerTimestamp env ts = Inr \<lparr>unix_sec = trunc v, nanosecond = trunc p\<rparr>"
    by blast
  have tv: "trunc v = \<lfloor>v\<rfloor>" using True by (rule trunc_nonneg)
  have tp: "trunc p = \<lfloor>p\<rfloor>" using p(2) by (rule trunc_nonneg)
  have n0: "0 \<le> trunc p" using p(2) by (simp add: tp)
  have "p < of_int 1000000000" using p(3) by simp
  then have n1: "trunc p < 1000000000" unfolding tp by (simp only: floor_less_iff)
  have s: "f64_sub (Fin v) (float64_of_int64 (trunc v)) = Fin (v - of_int (trunc v))"
    unfolding tv using float64_floor_frac [OF assms(2) True]
    by (simp only: float64_of_int64_def f64_sub.simps)
  have m: "f64_mul (Fin (v - of_int (trunc v))) (Fin 1000000000) = Fin p"
    by (simp only: f64_mul.simps p(1))
  have x: "Fin v = fl (1504804895094333887 / 1000000000) \<longrightarrow> trunc v = 1504804895"
  proof
    assume "Fin v = fl (1504804895094333887 / 1000000000)"
    then have e: "v = 6311609190713745 / 4194304"
      by (simp only: fl_example float64.inject)
    show "trunc v = 1504804895"
      unfolding e by (rule trunc_examples)
  qed
  show ?thesis
    using s m t n0 n1 x by (intro exI [of _ p] exI [of _ "\<lparr>unix_sec = trunc v, nanosecond = trunc p\<rparr>"]) simp
next
  case False
  then have neg: "v < 0" by simp
  from parseLagerTimestamp_neg [OF assms(1,2) neg assms(3)] obtain p where
    m0: "f64_mul (f64_sub (Fin v) (float64_of_int64 (trunc v))) (Fin 1000000000) = Fin p"
    and s: "f64_sub (Fin v) (float64_of_int64 (trunc v)) = Fin (v - of_int (trunc v))"
    and n: "- 1000000000 < trunc p" "trunc p \<le> 0"
    and t: "parseLagerTimestamp env ts =
      Inr (if trunc p = 0 then \<lparr>unix_sec = trunc v, nanosecond = 0\<rparr>
           else \<lparr>unix_sec = trunc v - 1, nanosecond = trunc p + 1000000000\<rparr>)"
    by blast
  have m: "f64_mul (Fin (v - of_int (trunc v))) (Fin 1000000000) = Fin p"
    using m0 by (simp only: s)
  have x: "Fin v \<noteq> fl (1504804895094333887 / 1000000000)"
  proof
    assume "Fin v = fl (1504804895094333887 / 1000000000)"
    then have e: "v = 6311609190713745 / 4194304"
      by (simp only: fl_example float64.inject)
    show False
      using neg unfolding e by simp
  qed
  show ?thesis
    using s m t n x neg
    by (intro exI [of _ p] exI [of _ "if trunc p = 0 then \<lparr>unix_sec = trunc v, nanosecond = 0\<rparr>
           else \<lparr>unix_sec = trunc v - 1, nanosecond = trunc p + 1000000000\<rparr>"]) auto
qed

text \<open>
  The truncated value is not the seconds of every timestamp that parses. For
  \<open>-1.5\<close> the truncated value is \<open>-1\<close>, the resolved time is \<open>-2\<close> seconds and
  \<open>500000000\<close> nanoseconds.
\<close>

theorem parseLagerTimestamp_negative_fraction:
  "ParseFloat example_env ''-1.5'' = Inr (Fin (- (3 / 2))) \<and>
   trunc (- (3 / 2)) = - 1 \<and>
   parseLagerTimestamp example_env ''-1.5'' = Inr \<lparr>unix_sec = - 2, nanosecond = 500000000\<rparr> \<and>
   unix_sec \<lparr>unix_sec = - 2, nanosecond = 500000000\<rparr> \<noteq> trunc (- (3 / 2))"
  by (simp add: example_env_simps ParseFloat_neg parse_neg_timestamp trunc_examples)

text \<open>
  The timestamp of the specification's example.
\<close>

theorem parseLagerTimestamp_components_witness:
  "ParseFloat example_env ''1504804895.094333887'' = Inr (Fin (6311609190713745 / 4194304)) \<and>
   is_float64 (6311609190713745 / 4194304) \<and>
   - (2 ^ 63) < (6311609190713745 / 4194304 :: rat) \<and>
   (6311609190713745 / 4194304 :: rat) < 2 ^ 63 \<and>
   trunc (6311609190713745 / 4194304) = 1504804895 \<and>
   (\<exists>t. parseLagerTimestamp example_env ''1504804895.094333887'' = Inr t \<and>
      unix_sec t = 1504804895 \<and> nanosecond t = 94333887) \<and>
   ParseFloat example_env ''-1.5'' = Inr (Fin (- (3 / 2))) \<and>
   is_float64 (- (3 / 2)) \<and>
   - (2 ^ 63) < (- (3 / 2) :: rat) \<and> (- (3 / 2) :: rat) < 2 ^ 63 \<and>
   (\<exists>t. parseLagerTimestamp example_env ''-1.5'' = Inr t \<and>
      unix_sec t = trunc (- (3 / 2)) - 1 \<and> nanosecond t = 500000000)"
proof -
  have h: "ParseFloat example_env ''1504804895.094333887'' = Inr (Fin (6311609190713745 / 4194304))"
    by (simp add: example_env_simps ParseFloat_example)
  have r: "- (2 ^ 63) < (6311609190713745 / 4194304 :: rat)"
    "(6311609190713745 / 4194304 :: rat) < 2 ^ 63"
    by simp_all
  note tv = trunc_examples(1) and tp = trunc_examples(2)
  from parseLagerTimestamp_components [OF h is_float64_example r]
  obtain p t where
    m: "f64_mul (Fin (6311609190713745 / 4194304 - of_int (trunc (6311609190713745 / 4194304))))
          (Fin 1000000000) = Fin p"
    and t: "parseLagerTimestamp example_env ''1504804895.094333887'' = Inr t"
    and c: "0 \<le> trunc p \<longrightarrow>
          unix_sec t = trunc (6311609190713745 / 4194304) \<and> nanosecond t = trunc p"
    by blast
  from m have p: "p = 772783203125 / 8192"
    by (simp only: f64_mul_example float64.inject)
  from c have "unix_sec t = 1504804895 \<and> nanosecond t = 94333887"
    by (simp add: p tp tv)
  with t have 1: "\<exists>t. parseLagerTimestamp example_env ''1504804895.094333887'' = Inr t \<and>
      unix_sec t = 1504804895 \<and> nanosecond t = 94333887"
    by blast
  have h': "ParseFloat example_env ''-1.5'' = Inr (Fin (- (3 / 2)))"
    by (simp add: example_env_simps ParseFloat_neg)
  have r': "- (2 ^ 63) < (- (3 / 2) :: rat)" "(- (3 / 2) :: rat) < 2 ^ 63"
    by simp_all
  from parseLagerTimestamp_components [OF h' is_float64_neg_example r']
  obtain p' t' where
    m': "f64_mul (Fin (- (3 / 2) - of_int (trunc (- (3 / 2))))) (Fin 1000000000) = Fin p'"
    and t': "parseLagerTimestamp example_env ''-1.5'' = Inr t'"
    and c': "trunc p' < 0 \<longrightarrow>
          unix_sec t' = trunc (- (3 / 2)) - 1 \<and> nanosecond t' = trunc p' + 1000000000"
    by blast
  from m' have p': "p' = - 500000000"
    by (simp only: f64_mul_neg_example float64.inject)
  from c' have "unix_sec t' = trunc (- (3 / 2)) - 1 \<and> nanosecond t' = 500000000"
    by (simp add: p' trunc_neg_nanos)
  with t' have 2: "\<exists>t. parseLagerTimestamp example_env ''-1.5'' = Inr t \<and>
      unix_sec t = trunc (- (3 / 2)) - 1 \<and> nanosecond t = 500000000"
    by blast
  from h is_float64_example r tv 1 h' is_float64_neg_example r' 2 show ?thesis
    by blast
qed

section \<open>The timestamp that does not parse\<close>

text \<open>
  C6, as the code has it. For a record that passes the severity filter and whose timestamp
  \<open>ParseFloat\<close> rejects, \<open>Log\<close> hands exactly one event to \<open>Send\<close>; the event has the
  field \<open>lager_timestamp_parse_error\<close> holding the parser's error and keeps the time of its
  construction. \<open>Log\<close> has no result to fail with: it prints nothing unless \<open>Send\<close> itself
  reports an error, and then only prints.
\<close>

theorem Log_timestamp_parse_failure:
  assumes "minLevel \<le> LogLevel lf" and "ParseFloat env (Timestamp lf) = Inl e"
  shows "\<exists>ev. sends (snd (Log env (NewSink wk ds minLevel) lf w)) = sends w @ [ev] \<and>
     ev_fields ev ''lager_timestamp_parse_error''
       = Some (VErr (NumError ''ParseFloat'' (Timestamp lf) e)) \<and>
     ev_Timestamp ev = Now env \<and>
     printed (snd (Log env (NewSink wk ds minLevel) lf w))
       = printed w @ (case Send_error env ev of None \<Rightarrow> [] | Some msg \<Rightarrow> [SendFailed msg])"
proof -
  have m: "minLogLevel (NewSink wk ds minLevel) \<le> LogLevel lf"
    using assms(1) by (simp add: NewSink_def)
  have p: "parseLagerTimestamp env (Timestamp lf) = Inl (NumError ''ParseFloat'' (Timestamp lf) e)"
    using assms(2) by (simp add: parseLagerTimestamp_def)
  from Log_event [OF m, of env w] obtain ev where
    ev: "snd (Log env (NewSink wk ds minLevel) lf w) = Send env ev w"
    and fs: "ev_fields ev =
       ev_fields (NewEvent env (sink_builder (NewSink wk ds minLevel)))
         ++ (case Caller2 env of None \<Rightarrow> Map.empty | Some f \<Rightarrow> [''function'' \<mapsto> VStr f])
         ++ [''lager_source'' \<mapsto> VStr (Source lf),
             ''lager_message'' \<mapsto> VStr (Message lf),
             ''lager_log_level_iota'' \<mapsto> VInt (LogLevel lf),
             ''lager_log_level'' \<mapsto> VStr (logLevelToString (LogLevel lf))]
         ++ (case Data lf ''session'' of None \<Rightarrow> Map.empty | Some s \<Rightarrow> [''lager_session'' \<mapsto> s])
         ++ (Data lf)(''session'' := None)
         ++ (case parseLagerTimestamp env (Timestamp lf) of
               Inl err \<Rightarrow> [''lager_timestamp_parse_error'' \<mapsto> VErr err]
             | Inr t \<Rightarrow> Map.empty)"
    and ts: "ev_Timestamp ev =
       (case parseLagerTimestamp env (Timestamp lf) of Inl err \<Rightarrow> Now env | Inr t \<Rightarrow> t)"
    by blast
  have "sends (snd (Log env (NewSink wk ds minLevel) lf w)) = sends w @ [ev]"
    by (simp add: ev)
  moreover have "ev_fields ev ''lager_timestamp_parse_error''
       = Some (VErr (NumError ''ParseFloat'' (Timestamp lf) e))"
    by (simp add: fs p)
  moreover have "ev_Timestamp ev = Now env"
    by (simp add: ts p)
  moreover have "printed (snd (Log env (NewSink wk ds minLevel) lf w))
       = printed w @ (case Send_error env ev of None \<Rightarrow> [] | Some msg \<Rightarrow> [SendFailed msg])"
    by (simp add: ev Send_def split: option.splits)
  ultimately show ?thesis by blast
qed

text \<open>
  The filter comes first: a record below the minimum level is not sent,
  whatever its timestamp.
\<close>

theorem Log_filtered_unparsed_not_sent:
  "ParseFloat example_env (Timestamp (example_record\<lparr>Timestamp := ''not-a-time''\<rparr>)) = Inl ErrSyntax \<and>
   Log example_env (NewSink ''key'' ''dataset'' ERROR)
     (example_record\<lparr>Timestamp := ''not-a-time''\<rparr>) world0
   = (Data example_record, world0) \<and>
   sends world0 = []"
  by (simp add: Log_def NewSink_def example_record_simps example_env_simps ParseFloat_bad
      world0_def INFO_def ERROR_def)

theorem Log_timestamp_parse_failure_witness:
  "DEBUG \<le> LogLevel (example_record\<lparr>Timestamp := ''not-a-time''\<rparr>) \<and>
   ParseFloat example_env (Timestamp (example_record\<lparr>Timestamp := ''not-a-time''\<rparr>)) = Inl ErrSyntax \<and>
   (\<exists>ev. sends (snd (Log example_env (NewSink ''key'' ''dataset'' DEBUG)
                       (example_record\<lparr>Timestamp := ''not-a-time''\<rparr>) world0)) = [ev] \<and>
      ev_fields ev ''lager_timestamp_parse_error''
        = Some (VErr (NumError ''ParseFloat'' ''not-a-time'' ErrSyntax)) \<and>
      ev_Timestamp ev = \<lparr>unix_sec = 1600000000, nanosecond = 0\<rparr>) \<and>
   printed (snd (Log example_env (NewSink ''key'' ''dataset'' DEBUG)
                       (example_record\<lparr>Timestamp := ''not-a-time''\<rparr>) world0)) = []"
proof -
  have h: "DEBUG \<le> LogLevel (example_record\<lparr>Timestamp := ''not-a-time''\<rparr>)"
    by (simp add: example_record_simps DEBUG_def INFO_def)
  have g: "ParseFloat example_env (Timestamp (example_record\<lparr>Timestamp := ''not-a-time''\<rparr>)) = Inl ErrSyntax"
    by (simp add: example_env_simps ParseFloat_bad)
  from Log_timestamp_parse_failure [OF h g, of "''key''" "''dataset''" world0]
  obtain ev where ev:
    "sends (snd (Log example_env (NewSink ''key'' ''dataset'' DEBUG)
                       (example_record\<lparr>Timestamp := ''not-a-time''\<rparr>) world0)) = sends world0 @ [ev] \<and>
     ev_fields ev ''lager_timestamp_parse_error''
       = Some (VErr (NumError ''ParseFloat'' (Timestamp (example_record\<lparr>Timestamp := ''not-a-time''\<rparr>)) ErrSyntax)) \<and>
     ev_Timestamp ev = Now example_env \<and>
     printed (snd (Log example_env (NewSink ''key'' ''dataset'' DEBUG)
                       (example_record\<lparr>Timestamp := ''not-a-time''\<rparr>) world0))
       = printed world0 @ (case Send_error example_env ev of None \<Rightarrow> [] | Some msg \<Rightarrow> [SendFailed msg])" ..
  then have "sends (snd (Log example_env (NewSink ''key'' ''dataset'' DEBUG)
                       (example_record\<lparr>Timestamp := ''not-a-time''\<rparr>) world0)) = [ev] \<and>
      ev_fields ev ''lager_timestamp_parse_error''
        = Some (VErr (NumError ''ParseFloat'' ''not-a-time'' ErrSyntax)) \<and>
      ev_Timestamp ev = \<lparr>unix_sec = 1600000000, nanosecond = 0\<rparr>"
    and "printed (snd (Log example_env (NewSink ''key'' ''dataset'' DEBUG)
                       (example_record\<lparr>Timestamp := ''not-a-time''\<rparr>) world0)) = []"
    by (simp_all add: example_env_simps world0_def)
  with h g show ?thesis by blast
qed

section \<open>The session entry\<close>

text \<open>
  C7, as the code has it. For a record that passes the filter and whose data has an entry
  \<open>session\<close>: exactly one event is sent; it has no field \<open>session\<close>; its field
  \<open>lager_session\<close> is the session's value unless the data has an entry \<open>lager_session\<close> of
  its own; the caller's map is left with the \<open>session\<close> entry deleted and nothing else
  changed; and every other entry of the data is a field of the event with its value (an
  entry under \<open>lager_timestamp_parse_error\<close> only when the timestamp parses).
\<close>

theorem Log_moves_session:
  assumes "minLevel \<le> LogLevel lf" and "Data lf ''session'' = Some s"
  shows "\<exists>ev. sends (snd (Log env (NewSink wk ds minLevel) lf w)) = sends w @ [ev] \<and>
     (''lager_session'' \<notin> dom (Data lf) \<longrightarrow> ev_fields ev ''lager_session'' = Some s) \<and>
     ev_fields ev ''session'' = None \<and>
     fst (Log env (NewSink wk ds minLevel) lf w) = (Data lf)(''session'' := None) \<and>
     (\<forall>k v. k \<noteq> ''session'' \<and> Data lf k = Some v \<and>
        (k = ''lager_timestamp_parse_error'' \<longrightarrow>
           (\<exists>t. parseLagerTimestamp env (Timestamp lf) = Inr t))
        \<longrightarrow> ev_fields ev k = Some v)"
proof -
  have m: "minLogLevel (NewSink wk ds minLevel) \<le> LogLevel lf"
    using assms(1) by (simp add: NewSink_def)
  from Log_event [OF m, of env w] obtain ev where
    ev: "snd (Log env (NewSink wk ds minLevel) lf w) = Send env ev w"
    and fs: "ev_fields ev =
       ev_fields (NewEvent env (sink_builder (NewSink wk ds minLevel)))
         ++ (case Caller2 env of None \<Rightarrow> Map.empty | Some f \<Rightarrow> [''function'' \<mapsto> VStr f])
         ++ [''lager_source'' \<mapsto> VStr (Source lf),
             ''lager_message'' \<mapsto> VStr (Message lf),
             ''lager_log_level_iota'' \<mapsto> VInt (LogLevel lf),
             ''lager_log_level'' \<mapsto> VStr (logLevelToString (LogLevel lf))]
         ++ (case Data lf ''session'' of None \<Rightarrow> Map.empty | Some s \<Rightarrow> [''lager_session'' \<mapsto> s])
         ++ (Data lf)(''session'' := None)
         ++ (case parseLagerTimestamp env (Timestamp lf) of
               Inl err \<Rightarrow> [''lager_timestamp_parse_error'' \<mapsto> VErr err]
             | Inr t \<Rightarrow> Map.empty)"
    by blast
  have "sends (snd (Log env (NewSink wk ds minLevel) lf w)) = sends w @ [ev]"
    by (simp add: ev)
  moreover have "''lager_session'' \<notin> dom (Data lf) \<longrightarrow> ev_fields ev ''lager_session'' = Some s"
    using assms(2) by (auto simp: fs map_add_def dom_def split: sum.splits option.splits)
  moreover have "ev_fields ev ''session'' = None"
    by (auto simp: fs NewEvent_NewSink map_add_def split: sum.splits option.splits)
  moreover have "fst (Log env (NewSink wk ds minLevel) lf w) = (Data lf)(''session'' := None)"
    using m by (simp add: Log_data_after)
  moreover have "\<forall>k v. k \<noteq> ''session'' \<and> Data lf k = Some v \<and>
        (k = ''lager_timestamp_parse_error'' \<longrightarrow>
           (\<exists>t. parseLagerTimestamp env (Timestamp lf) = Inr t))
        \<longrightarrow> ev_fields ev k = Some v"
    by (auto simp: fs map_add_def split: sum.splits option.splits)
  ultimately show ?thesis by blast
qed

text \<open>
  A record whose data has both a \<open>session\<close> and a \<open>lager_session\<close> entry is sent with the
  latter under \<open>lager_session\<close>, not with the session's value.
\<close>

theorem Log_lager_session_overridden:
  "Data (example_record\<lparr>Data := [''session'' \<mapsto> VStr ''7'', ''lager_session'' \<mapsto> VStr ''other'']\<rparr>)
      ''session'' = Some (VStr ''7'') \<and>
   map (\<lambda>ev. ev_fields ev ''lager_session'')
     (sends (snd (Log example_env (NewSink ''key'' ''dataset'' DEBUG)
        (example_record\<lparr>Data := [''session'' \<mapsto> VStr ''7'', ''lager_session'' \<mapsto> VStr ''other'']\<rparr>)
        world0)))
   = [Some (VStr ''other'')] \<and>
   Some (VStr ''other'') \<noteq> Some (VStr ''7'')"
proof -
  have h: "minLogLevel (NewSink ''key'' ''dataset'' DEBUG)
        \<le> LogLevel (example_record\<lparr>Data := [''session'' \<mapsto> VStr ''7'', ''lager_session'' \<mapsto> VStr ''other'']\<rparr>)"
    by (simp add: NewSink_def example_record_simps DEBUG_def INFO_def)
  from Log_event [OF h, of example_env world0] show ?thesis
    by (auto simp: example_record_simps world0_def map_add_def parse_example_timestamp)
qed

theorem Log_moves_session_witness:
  "DEBUG \<le> LogLevel example_record \<and> Data example_record ''session'' = Some (VStr ''7'') \<and>
   (\<exists>ev. sends (snd (Log example_env (NewSink ''key'' ''dataset'' DEBUG) example_record world0)) = [ev] \<and>
      ev_fields ev ''lager_session'' = Some (VStr ''7'') \<and>
      ev_fields ev ''session'' = None \<and>
      ev_fields ev ''method'' = Some (VStr ''get'')) \<and>
   fst (Log example_env (NewSink ''key'' ''dataset'' DEBUG) example_record world0)
     = [''method'' \<mapsto> VStr ''get'']"
proof -
  have h: "DEBUG \<le> LogLevel example_record"
    by (simp add: example_record_simps DEBUG_def INFO_def)
  have g: "Data example_record ''session'' = Some (VStr ''7'')"
    by (simp add: example_record_simps)
  from Log_moves_session [OF h g, of example_env "''key''" "''dataset''" world0]
  obtain ev where ev:
    "sends (snd (Log example_env (NewSink ''key'' ''dataset'' DEBUG) example_record world0)) = sends world0 @ [ev] \<and>
     (''lager_session'' \<notin> dom (Data example_record) \<longrightarrow> ev_fields ev ''lager_session'' = Some (VStr ''7'')) \<and>
     ev_fields ev ''session'' = None \<and>
     fst (Log example_env (NewSink ''key'' ''dataset'' DEBUG) example_record world0)
       = (Data example_record)(''session'' := None) \<and>
     (\<forall>k v. k \<noteq> ''session'' \<and> Data example_record k = Some v \<and>
        (k = ''lager_timestamp_parse_error'' \<longrightarrow>
           (\<exists>t. parseLagerTimestamp example_env (Timestamp example_record) = Inr t))
        \<longrightarrow> ev_fields ev k = Some v)" ..
  note s = ev [THEN conjunct1] and r1 = ev [THEN conjunct2]
  note f1 = r1 [THEN conjunct1] and r2 = r1 [THEN conjunct2]
  note f2 = r2 [THEN conjunct1] and r3 = r2 [THEN conjunct2]
  note f3 = r3 [THEN conjunct1] and d = r3 [THEN conjunct2]
  have 1: "sends (snd (Log example_env (NewSink ''key'' ''dataset'' DEBUG) example_record world0)) = [ev]"
    using s by (simp add: world0_def)
  have 2: "ev_fields ev ''lager_session'' = Some (VStr ''7'')"
    using f1 by (simp add: example_record_simps)
  have 3: "ev_fields ev ''method'' = Some (VStr ''get'')"
    using d [rule_format, of "''method''" "VStr ''get''"] by (simp add: example_record_simps)
  have 4: "fst (Log example_env (NewSink ''key'' ''dataset'' DEBUG) example_record world0)
     = [''method'' \<mapsto> VStr ''get'']"
    using f3 by (simp add: example_record_simps fun_upd_twist)
  from h g 1 2 f2 3 4 show ?thesis by blast
qed

text \<open>
  C10. \<open>Log\<close> leaves the caller's data map as it is when the map has no \<open>session\<close>
  entry; in every case the entries under all other keys are what they were, so deleting
  \<open>session\<close> is the only change \<open>Log\<close> makes to it. The second copy of \<open>Log\<close> never changes
  the map.
\<close>

theorem Log_data_frame:
  "(Data lf ''session'' = None \<longrightarrow> fst (Log env snk lf w) = Data lf) \<and>
   (\<forall>k. k \<noteq> ''session'' \<longrightarrow> fst (Log env snk lf w) k = Data lf k) \<and>
   fst (Log_part000 env snk lf w) = Data lf"
  by (simp add: Log_data_after Log_part000_def Let_def fun_upd_idem)

theorem Log_data_frame_witness:
  "Data (example_record\<lparr>Data := [''method'' \<mapsto> VStr ''get'']\<rparr>) ''session'' = None \<and>
   fst (Log example_env (NewSink ''key'' ''dataset'' DEBUG)
          (example_record\<lparr>Data := [''method'' \<mapsto> VStr ''get'']\<rparr>) world0)
     = [''method'' \<mapsto> VStr ''get''] \<and>
   fst (Log example_env (NewSink ''key'' ''dataset'' DEBUG) example_record world0) ''method''
     = Some (VStr ''get'')"
proof -
  note a = Log_data_frame [of "example_record\<lparr>Data := [''method'' \<mapsto> VStr ''get'']\<rparr>"
      example_env "NewSink ''key'' ''dataset'' DEBUG" world0]
  note b = Log_data_frame [of example_record example_env "NewSink ''key'' ''dataset'' DEBUG" world0]
  have h: "Data (example_record\<lparr>Data := [''method'' \<mapsto> VStr ''get'']\<rparr>) ''session'' = None"
    by simp
  have 1: "fst (Log example_env (NewSink ''key'' ''dataset'' DEBUG)
          (example_record\<lparr>Data := [''method'' \<mapsto> VStr ''get'']\<rparr>) world0)
     = [''method'' \<mapsto> VStr ''get'']"
    using a [THEN conjunct1, rule_format, OF h] by simp
  have 2: "fst (Log example_env (NewSink ''key'' ''dataset'' DEBUG) example_record world0) ''method''
     = Some (VStr ''get'')"
    using b [THEN conjunct2, THEN conjunct1, rule_format, of "''method''"]
    by (simp add: example_record_simps)
  from h 1 2 show ?thesis by blast
qed

section \<open>The two copies of Log\<close>

text \<open>
  C9, as the code has it. The two copies of \<open>Log\<close> filter alike. For a record that passes,
  each sends one event; the two events have the same metadata and the same timestamp and
  agree on every field other than \<open>function\<close>, \<open>session\<close> and \<open>lager_session\<close>. When the
  data has no \<open>session\<close> entry and the runtime does not resolve the caller, the two calls
  have the same result altogether.
\<close>

theorem Log_copies_agree:
  "(LogLevel lf < minLogLevel snk \<longrightarrow>
      Log env snk lf w = (Data lf, w) \<and> Log_part000 env snk lf w = (Data lf, w)) \<and>
   (minLogLevel snk \<le> LogLevel lf \<longrightarrow>
      (\<exists>ev ev'. sends (snd (Log env snk lf w)) = sends w @ [ev] \<and>
         sends (snd (Log_part000 env snk lf w)) = sends w @ [ev'] \<and>
         ev_Metadata ev = ev_Metadata ev' \<and>
         ev_Timestamp ev = ev_Timestamp ev' \<and>
         (\<forall>k. k \<noteq> ''function'' \<and> k \<noteq> ''session'' \<and> k \<noteq> ''lager_session'' \<longrightarrow>
            ev_fields ev k = ev_fields ev' k))) \<and>
   (Data lf ''session'' = None \<and> Caller2 env = None \<longrightarrow>
      Log env snk lf w = Log_part000 env snk lf w)"
proof (intro conjI impI)
  assume "LogLevel lf < minLogLevel snk"
  then show "Log env snk lf w = (Data lf, w)" "Log_part000 env snk lf w = (Data lf, w)"
    by (simp_all add: Log_def Log_part000_def)
next
  assume m: "minLogLevel snk \<le> LogLevel lf"
  from Log_event [OF m, of env w] obtain ev where
    ev: "snd (Log env snk lf w) = Send env ev w"
    and fs: "ev_fields ev =
       ev_fields (NewEvent env (sink_builder snk))
         ++ (case Caller2 env of None \<Rightarrow> Map.empty | Some f \<Rightarrow> [''function'' \<mapsto> VStr f])
         ++ [''lager_source'' \<mapsto> VStr (Source lf),
             ''lager_message'' \<mapsto> VStr (Message lf),
             ''lager_log_level_iota'' \<mapsto> VInt (LogLevel lf),
             ''lager_log_level'' \<mapsto> VStr (logLevelToString (LogLevel lf))]
         ++ (case Data lf ''session'' of None \<Rightarrow> Map.empty | Some s \<Rightarrow> [''lager_session'' \<mapsto> s])
         ++ (Data lf)(''session'' := None)
         ++ (case parseLagerTimestamp env (Timestamp lf) of
               Inl err \<Rightarrow> [''lager_timestamp_parse_error'' \<mapsto> VErr err]
             | Inr t \<Rightarrow> Map.empty)"
    and md: "ev_Metadata ev = MetaMap [''id'' \<mapsto> VInt (Intn MaxInt32 (rand_draw env))]"
    and ts: "ev_Timestamp ev =
       (case parseLagerTimestamp env (Timestamp lf) of Inl err \<Rightarrow> Now env | Inr t \<Rightarrow> t)"
    by blast
  from Log_part000_event [OF m, of env w] obtain ev' where
    ev': "snd (Log_part000 env snk lf w) = Send env ev' w"
    and fs': "ev_fields ev' =
       ev_fields (NewEvent env (sink_builder snk))
         ++ [''lager_source'' \<mapsto> VStr (Source lf),
             ''lager_message'' \<mapsto> VStr (Message lf),
             ''lager_log_level_iota'' \<mapsto> VInt (LogLevel lf),
             ''lager_log_level'' \<mapsto> VStr (logLevelToString (LogLevel lf))]
         ++ Data lf
         ++ (case parseLagerTimestamp env (Timestamp lf) of
               Inl err \<Rightarrow> [''lager_timestamp_parse_error'' \<mapsto> VErr err]
             | Inr t \<Rightarrow> Map.empty)"
    and md': "ev_Metadata ev' = MetaMap [''id'' \<mapsto> VInt (Intn MaxInt32 (rand_draw env))]"
    and ts': "ev_Timestamp ev' =
       (case parseLagerTimestamp env (Timestamp lf) of Inl err \<Rightarrow> Now env | Inr t \<Rightarrow> t)"
    by blast
  have "\<forall>k. k \<noteq> ''function'' \<and> k \<noteq> ''session'' \<and> k \<noteq> ''lager_session'' \<longrightarrow>
            ev_fields ev k = ev_fields ev' k"
    by (auto simp: fs fs' map_add_def split: sum.splits option.splits)
  with ev ev' md md' ts ts'
  show "\<exists>ev ev'. sends (snd (Log env snk lf w)) = sends w @ [ev] \<and>
         sends (snd (Log_part000 env snk lf w)) = sends w @ [ev'] \<and>
         ev_Metadata ev = ev_Metadata ev' \<and>
         ev_Timestamp ev = ev_Timestamp ev' \<and>
         (\<forall>k. k \<noteq> ''function'' \<and> k \<noteq> ''session'' \<and> k \<noteq> ''lager_session'' \<longrightarrow>
            ev_fields ev k = ev_fields ev' k)"
    by (intro exI [of _ ev] exI [of _ ev']) simp
next
  assume "Data lf ''session'' = None \<and> Caller2 env = None"
  then show "Log env snk lf w = Log_part000 env snk lf w"
    by (simp add: Log_def Log_part000_def Let_def)
qed

text \<open>
  They are not equivalent: for the example record, \<^verbatim>\<open>honeylager.go\<close> sends the call site
  and no \<open>session\<close> field, the second copy sends the \<open>session\<close> field and no call site.
\<close>

theorem Log_copies_differ:
  "map (\<lambda>ev. ev_fields ev ''session'')
     (sends (snd (Log example_env (NewSink ''key'' ''dataset'' DEBUG) example_record world0)))
     = [None] \<and>
   map (\<lambda>ev. ev_fields ev ''session'')
     (sends (snd (Log_part000 example_env (NewSink ''key'' ''dataset'' DEBUG) example_record world0)))
     = [Some (VStr ''7'')] \<and>
   map (\<lambda>ev. ev_fields ev ''function'')
     (sends (snd (Log example_env (NewSink ''key'' ''dataset'' DEBUG) example_record world0)))
     = [Some (VStr ''main.main'')] \<and>
   map (\<lambda>ev. ev_fields ev ''function'')
     (sends (snd (Log_part000 example_env (NewSink ''key'' ''dataset'' DEBUG) example_record world0)))
     = [None]"
proof -
  from Log_event [OF example_passes, of example_env world0]
    Log_part000_event [OF example_passes, of example_env world0]
  show ?thesis
    by (auto simp: example_record_simps example_env_simps world0_def map_add_def
        parse_example_timestamp NewEvent_NewSink)
qed

theorem Log_copies_agree_witness:
  "LogLevel example_record < minLogLevel (NewSink ''key'' ''dataset'' ERROR) \<and>
   Log example_env (NewSink ''key'' ''dataset'' ERROR) example_record world0
     = (Data example_record, world0) \<and>
   Log_part000 example_env (NewSink ''key'' ''dataset'' ERROR) example_record world0
     = (Data example_record, world0) \<and>
   minLogLevel (NewSink ''key'' ''dataset'' DEBUG) \<le> LogLevel example_record \<and>
   (\<exists>ev ev'.
      sends (snd (Log example_env (NewSink ''key'' ''dataset'' DEBUG) example_record world0)) = [ev] \<and>
      sends (snd (Log_part000 example_env (NewSink ''key'' ''dataset'' DEBUG) example_record world0)) = [ev'] \<and>
      ev_Metadata ev = ev_Metadata ev' \<and>
      ev_Timestamp ev = ev_Timestamp ev' \<and>
      ev_fields ev ''method'' = ev_fields ev' ''method'') \<and>
   Data (example_record\<lparr>Data := [''method'' \<mapsto> VStr ''get'']\<rparr>) ''session'' = None \<and>
   Caller2 (example_env\<lparr>Caller2 := None\<rparr>) = None \<and>
   Log (example_env\<lparr>Caller2 := None\<rparr>) (NewSink ''key'' ''dataset'' DEBUG)
       (example_record\<lparr>Data := [''method'' \<mapsto> VStr ''get'']\<rparr>) world0
     = Log_part000 (example_env\<lparr>Caller2 := None\<rparr>) (NewSink ''key'' ''dataset'' DEBUG)
         (example_record\<lparr>Data := [''method'' \<mapsto> VStr ''get'']\<rparr>) world0"
proof -
  have h: "LogLevel example_record < minLogLevel (NewSink ''key'' ''dataset'' ERROR)"
    by (simp add: example_record_simps NewSink_def INFO_def ERROR_def)
  have g: "Data (example_record\<lparr>Data := [''method'' \<mapsto> VStr ''get'']\<rparr>) ''session'' = None \<and>
      Caller2 (example_env\<lparr>Caller2 := None\<rparr>) = None"
    by simp
  note a = Log_copies_agree [of example_record "NewSink ''key'' ''dataset'' ERROR" example_env world0]
  note b = Log_copies_agree [of example_record "NewSink ''key'' ''dataset'' DEBUG" example_env world0]
  note c = Log_copies_agree [of "example_record\<lparr>Data := [''method'' \<mapsto> VStr ''get'']\<rparr>"
      "NewSink ''key'' ''dataset'' DEBUG" "example_env\<lparr>Caller2 := None\<rparr>" world0]
  note 1 = a [THEN conjunct1, rule_format, OF h]
  from b [THEN conjunct2, THEN conjunct1, rule_format, OF example_passes]
  obtain ev ev' where e:
    "sends (snd (Log example_env (NewSink ''key'' ''dataset'' DEBUG) example_record world0))
       = sends world0 @ [ev] \<and>
     sends (snd (Log_part000 example_env (NewSink ''key'' ''dataset'' DEBUG) example_record world0))
       = sends world0 @ [ev'] \<and>
     ev_Metadata ev = ev_Metadata ev' \<and>
     ev_Timestamp ev = ev_Timestamp ev' \<and>
     (\<forall>k. k \<noteq> ''function'' \<and> k \<noteq> ''session'' \<and> k \<noteq> ''lager_session'' \<longrightarrow>
        ev_fields ev k = ev_fields ev' k)"
    by (elim exE)
  have 2: "sends (snd (Log example_env (NewSink ''key'' ''dataset'' DEBUG) example_record world0)) = [ev] \<and>
      sends (snd (Log_part000 example_env (NewSink ''key'' ''dataset'' DEBUG) example_record world0)) = [ev'] \<and>
      ev_Metadata ev = ev_Metadata ev' \<and>
      ev_Timestamp ev = ev_Timestamp ev' \<and>
      ev_fields ev ''method'' = ev_fields ev' ''method''"
    using e
      e [THEN conjunct2, THEN conjunct2, THEN conjunct2, THEN conjunct2, rule_format, of "''method''"]
    by (simp add: world0_def)
  note 3 = c [THEN conjunct2, THEN conjunct2, rule_format, OF g]
  from h 1 example_passes 2 g 3 show ?thesis by blast
qed

section \<open>The response loop\<close>

text \<open>
  C8. A response whose status code is outside \<open>[200, 300)\<close> makes the loop print exactly one
  failure line, with the status code, the error and the body, and go on with the rest of the
  channel. Whatever the responses are, the loop returns exactly when the channel is closed:
  until then it has printed one line for each response delivered, and it sends nothing.
\<close>

theorem ReadResponses_bad_status:
  assumes "StatusCode r < 200 \<or> 300 \<le> StatusCode r"
  shows "ReadResponses (Recv r # es) w =
           ReadResponses es
             (w\<lparr>printed := printed w @ [BadStatusCode (StatusCode r) (Resp_Err r) (Body r)]\<rparr>) \<and>
         (fst (ReadResponses es' w') = Returned \<longleftrightarrow> Closed \<in> set es') \<and>
         printed (snd (ReadResponses es' w')) = printed w' @ map handle_response (delivered es') \<and>
         sends (snd (ReadResponses es' w')) = sends w'"
  using assms
  by (auto simp: handle_response_def ReadResponses_printed ReadResponses_sends ReadResponses_Returned)

text \<open>
  A response with status 500 followed by a good one: both are reported, and the loop
  returns once the channel is closed.
\<close>

theorem ReadResponses_bad_status_witness:
  "(StatusCode (example_response\<lparr>StatusCode := 500, Resp_Err := Some ''boom''\<rparr>) < 200
      \<or> 300 \<le> StatusCode (example_response\<lparr>StatusCode := 500, Resp_Err := Some ''boom''\<rparr>)) \<and>
   ReadResponses
     [Recv (example_response\<lparr>StatusCode := 500, Resp_Err := Some ''boom''\<rparr>), Recv example_response]
     world0
   = (Waiting, world0\<lparr>printed := [BadStatusCode 500 (Some ''boom'') [],
                                    SuccessfullySent (VInt 424242) 1500000]\<rparr>) \<and>
   fst (ReadResponses
     [Recv (example_response\<lparr>StatusCode := 500, Resp_Err := Some ''boom''\<rparr>), Recv example_response, Closed]
     world0) = Returned"
proof -
  have h: "StatusCode (example_response\<lparr>StatusCode := 500, Resp_Err := Some ''boom''\<rparr>) < 200
      \<or> 300 \<le> StatusCode (example_response\<lparr>StatusCode := 500, Resp_Err := Some ''boom''\<rparr>)"
    by simp
  note a = ReadResponses_bad_status [OF h, of "[Recv example_response]" world0
      "[Recv (example_response\<lparr>StatusCode := 500, Resp_Err := Some ''boom''\<rparr>), Recv example_response, Closed]"
      world0]
  have 1: "ReadResponses
     [Recv (example_response\<lparr>StatusCode := 500, Resp_Err := Some ''boom''\<rparr>), Recv example_response]
     world0
   = (Waiting, world0\<lparr>printed := [BadStatusCode 500 (Some ''boom'') [],
                                    SuccessfullySent (VInt 424242) 1500000]\<rparr>)"
    unfolding a [THEN conjunct1]
    by (simp add: world0_def handle_response_def example_response_def metadataKeyID_def)
  have 2: "fst (ReadResponses
     [Recv (example_response\<lparr>StatusCode := 500, Resp_Err := Some ''boom''\<rparr>), Recv example_response, Closed]
     world0) = Returned"
    using a [THEN conjunct2, THEN conjunct1] by simp
  from h 1 2 show ?thesis by blast
qed

text \<open>
  C4, as the code has it. For a response whose status code is in \<open>[200, 300)\<close> the loop
  prints exactly one line and goes on: the line says that the metadata was nil when it is
  the nil interface; that it has not the expected type when it is not a
  \<^verbatim>\<open>map[string]interface{}\<close>; and otherwise it is the success line, with the value the
  map holds under \<open>id\<close> (nil when the map has no such key) and the duration.
\<close>

theorem handle_response_success_range:
  assumes "200 \<le> StatusCode r" and "StatusCode r < 300"
  shows "ReadResponses (Recv r # es) w =
           ReadResponses es (w\<lparr>printed := printed w @ [handle_response r]\<rparr>) \<and>
    (Resp_Metadata r = MetaNil \<longrightarrow> handle_response r = MetadataWasNil) \<and>
    (\<forall>v. Resp_Metadata r = MetaOther v \<longrightarrow> handle_response r = MetadataNotMap (MetaOther v)) \<and>
    (\<forall>m t. Resp_Metadata r = MetaMap m \<and> m ''id'' = Some t \<longrightarrow>
       handle_response r = SuccessfullySent t (Duration r)) \<and>
    (\<forall>m. Resp_Metadata r = MetaMap m \<and> m ''id'' = None \<longrightarrow>
       handle_response r = SuccessfullySent VNil (Duration r))"
  using assms by (simp add: handle_response_def metadataKeyID_def)

text \<open>
  The loop does not look for the key: a response whose metadata is a map without \<open>id\<close> is
  reported as sent, with the token nil.
\<close>

theorem handle_response_map_without_id:
  "200 \<le> StatusCode (example_response\<lparr>Resp_Metadata := MetaMap Map.empty\<rparr>) \<and>
   StatusCode (example_response\<lparr>Resp_Metadata := MetaMap Map.empty\<rparr>) < 300 \<and>
   handle_response (example_response\<lparr>Resp_Metadata := MetaMap Map.empty\<rparr>)
     = SuccessfullySent VNil 1500000 \<and>
   handle_response (example_response\<lparr>Resp_Metadata := MetaMap Map.empty\<rparr>)
     \<noteq> MetadataNotMap (MetaMap Map.empty) \<and>
   printed (snd (ReadResponses [Recv (example_response\<lparr>Resp_Metadata := MetaMap Map.empty\<rparr>), Closed] world0))
     = [SuccessfullySent VNil 1500000]"
  by (simp add: handle_response_def example_response_def world0_def metadataKeyID_def)

theorem handle_response_success_range_witness:
  "200 \<le> StatusCode example_response \<and> StatusCode example_response < 300 \<and>
   handle_response example_response = SuccessfullySent (VInt 424242) 1500000 \<and>
   handle_response (example_response\<lparr>Resp_Metadata := MetaNil\<rparr>) = MetadataWasNil \<and>
   handle_response (example_response\<lparr>Resp_Metadata := MetaOther (VStr ''x'')\<rparr>)
     = MetadataNotMap (MetaOther (VStr ''x'')) \<and>
   printed (snd (ReadResponses [Recv example_response] world0))
     = [SuccessfullySent (VInt 424242) 1500000]"
proof -
  have h: "200 \<le> StatusCode (example_response\<lparr>Resp_Metadata := md\<rparr>)"
      "StatusCode (example_response\<lparr>Resp_Metadata := md\<rparr>) < 300" for md
    by (simp_all add: example_response_def)
  have e: "example_response\<lparr>Resp_Metadata := MetaMap [''id'' \<mapsto> VInt 424242]\<rparr> = example_response"
    by (simp add: example_response_def)
  note a = handle_response_success_range [OF h, of "MetaMap [''id'' \<mapsto> VInt 424242]" "[]" world0, unfolded e]
  note b = handle_response_success_range [OF h, of MetaNil "[]" world0]
  note c = handle_response_success_range [OF h, of "MetaOther (VStr ''x'')" "[]" world0]
  have 1: "handle_response example_response = SuccessfullySent (VInt 424242) 1500000"
    using a [THEN conjunct2, THEN conjunct2, THEN conjunct2, THEN conjunct1, rule_format,
        of "[''id'' \<mapsto> VInt 424242]" "VInt 424242"]
    by (simp add: example_response_def)
  have 2: "handle_response (example_response\<lparr>Resp_Metadata := MetaNil\<rparr>) = MetadataWasNil"
    using b [THEN conjunct2, THEN conjunct1] by simp
  have 3: "handle_response (example_response\<lparr>Resp_Metadata := MetaOther (VStr ''x'')\<rparr>)
     = MetadataNotMap (MetaOther (VStr ''x''))"
    using c [THEN conjunct2, THEN conjunct2, THEN conjunct1, rule_format, of "VStr ''x''"] by simp
  have 4: "printed (snd (ReadResponses [Recv example_response] world0))
     = [SuccessfullySent (VInt 424242) 1500000]"
    using a [THEN conjunct1] 1 by (simp add: world0_def)
  from h [of "MetaMap [''id'' \<mapsto> VInt 424242]", unfolded e] 1 2 3 4 show ?thesis by blast
qed

end
